theory Spec2Isabelle
  imports Complex_Main "HOL-Library.AList" "HOL-Library.Product_Lexorder"
begin

section \<open>Python values\<close>

text \<open>
  The exceptions the modelled part of \<^verbatim>\<open>thinkstats2.py\<close> can raise. A method that can
  raise returns \<open>error + 'a\<close>, with \<open>Inl\<close> for the exception.
\<close>

datatype error =
    ValueError
  | IndexError
  | KeyError
  | ZeroDivisionError
  | RuntimeError
  | UnimplementedMethodException

text \<open>
  A Python \<^verbatim>\<open>dict\<close> is an association list in insertion order. A dictionary never holds
  a key twice, so the lists that stand for dictionaries have distinct keys; theorems
  that need this say so. \<^verbatim>\<open>d[k] = v\<close> is \<^const>\<open>AList.update\<close>: it overwrites the value
  of a key that is present and appends a new key at the end.
\<close>

type_synonym ('k, 'v) pydict = "('k \<times> 'v) list"

definition dict_get :: "('k, 'v) pydict \<Rightarrow> 'k \<Rightarrow> 'v \<Rightarrow> 'v" where
  \<comment> \<open>\<^verbatim>\<open>d.get(k, default)\<close>\<close>
  "dict_get dct k dflt = (case map_of dct k of None \<Rightarrow> dflt | Some v \<Rightarrow> v)"

definition dict_getitem :: "('k, 'v) pydict \<Rightarrow> 'k \<Rightarrow> error + 'v" where
  \<comment> \<open>\<^verbatim>\<open>d[k]\<close>\<close>
  "dict_getitem dct k = (case map_of dct k of None \<Rightarrow> Inl KeyError | Some v \<Rightarrow> Inr v)"

definition dict_del :: "('k, 'v) pydict \<Rightarrow> 'k \<Rightarrow> error + ('k, 'v) pydict" where
  \<comment> \<open>\<^verbatim>\<open>del d[k]\<close>\<close>
  "dict_del dct k =
     (if k \<in> fst ` set dct then Inr (AList.delete k dct) else Inl KeyError)"

definition dict_update :: "('k, 'v) pydict \<Rightarrow> ('k \<times> 'v) list \<Rightarrow> ('k, 'v) pydict" where
  \<comment> \<open>\<^verbatim>\<open>d.update(items)\<close>\<close>
  "dict_update dct items = foldl (\<lambda>acc (k, v). AList.update k v acc) dct items"

definition Counter :: "'k list \<Rightarrow> ('k, 'w::semiring_1) pydict" where
  \<comment> \<open>\<^verbatim>\<open>collections.Counter(iterable)\<close>: one pass, \<^verbatim>\<open>c[x] = c.get(x, 0) + 1\<close>\<close>
  "Counter seq = foldl (\<lambda>acc x. AList.update x (dict_get acc x 0 + 1) acc) [] seq"

section \<open>Floating-point values\<close>

text \<open>
  Where the source produces or divides by the special values of IEEE arithmetic, a number
  is a \<open>pyfloat\<close>: a finite value, held exactly as a rational (rounding and the sign of
  zero are not modelled), or \<open>+inf\<close>, \<open>-inf\<close>, \<open>nan\<close>. The operations follow IEEE 754 on the
  special values. Division comes twice: Python's \<^verbatim>\<open>/\<close> on floats raises
  \<^verbatim>\<open>ZeroDivisionError\<close> for a zero divisor, NumPy's \<^verbatim>\<open>/\<close> on arrays returns \<open>inf\<close> or \<open>nan\<close>
  there. \<open>fl_less\<close> is \<^verbatim>\<open><\<close> on floats: every comparison with \<open>nan\<close> is false.
\<close>

datatype pyfloat = Fin rat | PInf | NInf | NaN

fun fl_neg :: "pyfloat \<Rightarrow> pyfloat" where
  "fl_neg (Fin a) = Fin (- a)"
| "fl_neg PInf = NInf"
| "fl_neg NInf = PInf"
| "fl_neg NaN = NaN"

fun fl_add :: "pyfloat \<Rightarrow> pyfloat \<Rightarrow> pyfloat" where
  "fl_add NaN _ = NaN"
| "fl_add _ NaN = NaN"
| "fl_add PInf NInf = NaN"
| "fl_add NInf PInf = NaN"
| "fl_add PInf _ = PInf"
| "fl_add _ PInf = PInf"
| "fl_add NInf _ = NInf"
| "fl_add _ NInf = NInf"
| "fl_add (Fin a) (Fin b) = Fin (a + b)"

definition fl_sub :: "pyfloat \<Rightarrow> pyfloat \<Rightarrow> pyfloat" where
  "fl_sub a b = fl_add a (fl_neg b)"

fun fl_sign :: "pyfloat \<Rightarrow> int" where
  "fl_sign (Fin a) = (if a < 0 then - 1 else if a = 0 then 0 else 1)"
| "fl_sign PInf = 1"
| "fl_sign NInf = - 1"
| "fl_sign NaN = 0"

definition signed_inf :: "int \<Rightarrow> pyfloat" where
  "signed_inf s = (if s < 0 then NInf else PInf)"

fun fl_mul :: "pyfloat \<Rightarrow> pyfloat \<Rightarrow> pyfloat" where
  "fl_mul NaN _ = NaN"
| "fl_mul _ NaN = NaN"
| "fl_mul (Fin a) (Fin b) = Fin (a * b)"
| "fl_mul a b = (if fl_sign a = 0 \<or> fl_sign b = 0 then NaN else signed_inf (fl_sign a * fl_sign b))"

fun fl_div :: "pyfloat \<Rightarrow> pyfloat \<Rightarrow> pyfloat" where
  "fl_div NaN _ = NaN"
| "fl_div _ NaN = NaN"
| "fl_div (Fin a) (Fin b) =
     (if b = 0 then (if a = 0 then NaN else signed_inf (fl_sign (Fin a))) else Fin (a / b))"
| "fl_div (Fin a) _ = Fin 0"
| "fl_div a (Fin b) = signed_inf (fl_sign a * (if b < 0 then - 1 else 1))"
| "fl_div _ _ = NaN"

definition np_divide :: "pyfloat \<Rightarrow> pyfloat \<Rightarrow> pyfloat" where
  "np_divide a b = fl_div a b"

definition py_truediv :: "pyfloat \<Rightarrow> pyfloat \<Rightarrow> error + pyfloat" where
  "py_truediv a b = (if b = Fin 0 then Inl ZeroDivisionError else Inr (fl_div a b))"

fun fl_less :: "pyfloat \<Rightarrow> pyfloat \<Rightarrow> bool" where
  "fl_less NaN _ = False"
| "fl_less _ NaN = False"
| "fl_less (Fin a) (Fin b) = (a < b)"
| "fl_less PInf _ = False"
| "fl_less _ PInf = True"
| "fl_less _ NInf = False"
| "fl_less NInf _ = True"

subsection \<open>Rounding to binary64\<close>

text \<open>
  A Python \<^verbatim>\<open>float\<close> is an IEEE 754 binary64 number: a finite value is \<open>m * 2^e\<close> with
  \<open>\<bar>m\<bar> < 2^53\<close> and \<open>-1074 \<le> e \<le> 971\<close>. Every operation returns its exact result rounded to
  the nearest such value, ties to the even mantissa: below \<open>2^-1022\<close> the spacing stays at
  \<open>2^-1074\<close> (the subnormal numbers), so a result of magnitude at most \<open>2^-1075\<close> underflows to
  zero, and a rounded result of magnitude \<open>2^1024\<close> or more overflows to an infinity.
  \<open>bit_length\<close> is \<^verbatim>\<open>int.bit_length\<close>; \<open>floor_log2 q\<close> is the exponent \<open>e\<close> with
  \<open>2^e \<le> q < 2^(e+1)\<close> of a positive rational; \<open>round_double\<close> is the rounding.
\<close>

fun bit_length :: "nat \<Rightarrow> nat" where
  "bit_length n = (if n = 0 then 0 else 1 + bit_length (n div 2))"

declare bit_length.simps [simp del]

definition floor_log2 :: "rat \<Rightarrow> int" where
  "floor_log2 q =
     (if 1 \<le> q then int (bit_length (nat \<lfloor>q\<rfloor>)) - 1
      else - int (bit_length (nat \<lceil>1 / q\<rceil> - 1)))"

definition pow2 :: "int \<Rightarrow> rat" where
  "pow2 k = (if 0 \<le> k then 2 ^ nat k else 1 / 2 ^ nat (- k))"

definition round_half_even :: "rat \<Rightarrow> int" where
  "round_half_even r =
     (let f = \<lfloor>r\<rfloor>; d = r - of_int f
      in if d < 1 / 2 then f else if 1 / 2 < d then f + 1 else if even f then f else f + 1)"

definition round_double :: "rat \<Rightarrow> pyfloat" where
  "round_double q =
     (if q = 0 then Fin 0
      else let e = max (floor_log2 \<bar>q\<bar>) (- 1022);
               ulp = pow2 (e - 52);
               r = of_int (round_half_even (q / ulp)) * ulp
           in if pow2 1024 \<le> \<bar>r\<bar> then (if q < 0 then NInf else PInf) else Fin r)"

fun fl_round :: "pyfloat \<Rightarrow> pyfloat" where
  "fl_round (Fin q) = round_double q"
| "fl_round x = x"

text \<open>
  \<open>float64\<close> is the type of Python floats with their own arithmetic: \<^verbatim>\<open>+\<close>, \<^verbatim>\<open>*\<close> and \<^verbatim>\<open>/\<close> are
  the operations of \<open>pyfloat\<close> followed by the rounding, and \<^verbatim>\<open>== 0\<close> is equality with the one
  zero of the model. \<^verbatim>\<open>Pmf.Normalize\<close> and the update methods of \<^verbatim>\<open>Suite\<close> below are written
  over any type of numbers that has these operations, so the same definitions run on exact
  numbers (a field, as Python's \<^verbatim>\<open>fractions.Fraction\<close> is) and on \<open>float64\<close>. Python's \<^verbatim>\<open>/\<close> raises
  \<^verbatim>\<open>ZeroDivisionError\<close> on a zero divisor where \<open>float64\<close> follows IEEE 754; the one division
  of the methods below, in \<^verbatim>\<open>Normalize\<close>, comes after the test that the divisor is not zero.
\<close>

datatype float64 = F64 pyfloat

instantiation float64 :: "{zero, one, plus, times, inverse}"
begin

definition zero_float64 :: float64 where
  "zero_float64 = F64 (Fin 0)"

definition one_float64 :: float64 where
  "one_float64 = F64 (Fin 1)"

definition plus_float64 :: "float64 \<Rightarrow> float64 \<Rightarrow> float64" where
  "plus_float64 a b = (case a of F64 x \<Rightarrow> case b of F64 y \<Rightarrow> F64 (fl_round (fl_add x y)))"

definition times_float64 :: "float64 \<Rightarrow> float64 \<Rightarrow> float64" where
  "times_float64 a b = (case a of F64 x \<Rightarrow> case b of F64 y \<Rightarrow> F64 (fl_round (fl_mul x y)))"

definition divide_float64 :: "float64 \<Rightarrow> float64 \<Rightarrow> float64" where
  "divide_float64 a b = (case a of F64 x \<Rightarrow> case b of F64 y \<Rightarrow> F64 (fl_round (fl_div x y)))"

definition inverse_float64 :: "float64 \<Rightarrow> float64" where
  "inverse_float64 a = (case a of F64 y \<Rightarrow> F64 (fl_round (fl_div (Fin 1) y)))"

instance ..

end

section \<open>\<^verbatim>\<open>_DictWrapper\<close>, \<^verbatim>\<open>Hist\<close> and \<^verbatim>\<open>Pmf\<close>\<close>

text \<open>
  The class of a wrapper object decides \<^verbatim>\<open>isinstance(self, Pmf)\<close> in the constructor;
  \<^verbatim>\<open>Suite\<close> and \<^verbatim>\<open>Joint\<close> are subclasses of \<^verbatim>\<open>Pmf\<close>.
\<close>

datatype wrapper_class = DictWrapper_class | Hist_class | Pmf_class | Joint_class | Suite_class

fun isinstance_Pmf :: "wrapper_class \<Rightarrow> bool" where
  "isinstance_Pmf Pmf_class = True"
| "isinstance_Pmf Joint_class = True"
| "isinstance_Pmf Suite_class = True"
| "isinstance_Pmf _ = False"

record ('k, 'w) DictWrapper =
  self_class :: wrapper_class
  self_label :: string
  self_d :: "('k, 'w) pydict"
  self_log :: bool

definition DEFAULT_LABEL :: string where
  "DEFAULT_LABEL = ''_nolegend_''"

definition Items :: "('k, 'w) DictWrapper \<Rightarrow> ('k \<times> 'w) list" where
  "Items self = self_d self"

definition Values :: "('k, 'w) DictWrapper \<Rightarrow> 'k list" where
  "Values self = map fst (self_d self)"

definition len :: "('k, 'w) DictWrapper \<Rightarrow> nat" where
  "len self = length (self_d self)"

definition getitem :: "('k, 'w::zero) DictWrapper \<Rightarrow> 'k \<Rightarrow> 'w" where
  \<comment> \<open>\<^verbatim>\<open>__getitem__\<close>: \<^verbatim>\<open>self.d.get(value, 0)\<close>\<close>
  "getitem self x = dict_get (self_d self) x 0"

definition setitem :: "('k, 'w) DictWrapper \<Rightarrow> 'k \<Rightarrow> 'w \<Rightarrow> ('k, 'w) DictWrapper" where
  \<comment> \<open>\<^verbatim>\<open>__setitem__\<close>\<close>
  "setitem self x prob = self\<lparr>self_d := AList.update x prob (self_d self)\<rparr>"

definition Set :: "('k, 'w) DictWrapper \<Rightarrow> 'k \<Rightarrow> 'w \<Rightarrow> ('k, 'w) DictWrapper" where
  "Set self x y = self\<lparr>self_d := AList.update x y (self_d self)\<rparr>"

definition Incr :: "('k, 'w::{zero,plus}) DictWrapper \<Rightarrow> 'k \<Rightarrow> 'w \<Rightarrow> ('k, 'w) DictWrapper" where
  "Incr self x term =
     self\<lparr>self_d := AList.update x (dict_get (self_d self) x 0 + term) (self_d self)\<rparr>"

definition Mult :: "('k, 'w::{zero,times}) DictWrapper \<Rightarrow> 'k \<Rightarrow> 'w \<Rightarrow> ('k, 'w) DictWrapper" where
  "Mult self x factor =
     self\<lparr>self_d := AList.update x (dict_get (self_d self) x 0 * factor) (self_d self)\<rparr>"

definition Remove :: "('k, 'w) DictWrapper \<Rightarrow> 'k \<Rightarrow> error + ('k, 'w) DictWrapper" where
  "Remove self x =
     (case dict_del (self_d self) x of
        Inl e \<Rightarrow> Inl e
      | Inr dct \<Rightarrow> Inr (self\<lparr>self_d := dct\<rparr>))"

definition Total :: "('k, 'w::{zero,plus}) DictWrapper \<Rightarrow> 'w" where
  \<comment> \<open>\<^verbatim>\<open>sum(self.d.values())\<close>: Python's \<^verbatim>\<open>sum\<close> starts at 0 and adds from the left\<close>
  "Total self = foldl (+) 0 (map snd (self_d self))"

subsection \<open>\<^verbatim>\<open>Hist\<close>\<close>

definition Freq :: "('k, 'w::zero) DictWrapper \<Rightarrow> 'k \<Rightarrow> 'w" where
  "Freq self x = dict_get (self_d self) x 0"

definition Subtract ::
  "('k, 'w::{zero,plus,uminus}) DictWrapper \<Rightarrow> ('k, 'w) DictWrapper \<Rightarrow> ('k, 'w) DictWrapper" where
  \<comment> \<open>\<^verbatim>\<open>for val, freq in other.Items(): self.Incr(val, -freq)\<close>; the updated \<^verbatim>\<open>self\<close> is returned\<close>
  "Subtract self other = foldl (\<lambda>acc (val, freq). Incr acc val (- freq)) self (Items other)"

subsection \<open>\<^verbatim>\<open>Pmf\<close>\<close>

definition Prob :: "('k, 'w::zero) DictWrapper \<Rightarrow> 'k \<Rightarrow> 'w" where
  "Prob self x = dict_get (self_d self) x 0"

fun Normalize_loop :: "'k list \<Rightarrow> ('k, 'w::times) pydict \<Rightarrow> 'w \<Rightarrow> error + ('k, 'w) pydict" where
  "Normalize_loop [] dct factor = Inr dct"
| "Normalize_loop (x # xs) dct factor =
     (case dict_getitem dct x of
        Inl e \<Rightarrow> Inl e
      | Inr p \<Rightarrow> Normalize_loop xs (AList.update x (p * factor) dct) factor)"

definition Normalize ::
  "('k, 'w::{zero,plus,times,inverse}) DictWrapper \<Rightarrow> 'w \<Rightarrow> error + ('w \<times> ('k, 'w) DictWrapper)" where
  "Normalize self fraction =
     (if self_log self then Inl ValueError
      else let tot = Total self in
        if tot = 0 then Inl ValueError
        else let factor = fraction / tot in
          case Normalize_loop (map fst (self_d self)) (self_d self) factor of
            Inl e \<Rightarrow> Inl e
          | Inr dct \<Rightarrow> Inr (tot, self\<lparr>self_d := dct\<rparr>))"

text \<open>
  The constructor dispatches on the type of \<^verbatim>\<open>obj\<close>. The sources modelled are \<^verbatim>\<open>None\<close>, a
  \<^verbatim>\<open>dict\<close>, another \<^verbatim>\<open>_DictWrapper\<close> (a \<^verbatim>\<open>Hist\<close> or \<^verbatim>\<open>Pmf\<close>) and a raw sequence, which is
  counted with \<^verbatim>\<open>Counter\<close>; a \<^verbatim>\<open>Cdf\<close>, \<^verbatim>\<open>Pdf\<close> or pandas \<^verbatim>\<open>Series\<close> source takes the same
  path after its own \<^verbatim>\<open>Items()\<close> and is left out. For the constructor, \<^verbatim>\<open>AddPmf\<close> and \<^verbatim>\<open>SubPmf\<close>
  weights are elements of a field: the arithmetic is exact, as it is in Python on \<^verbatim>\<open>int\<close> and
  \<^verbatim>\<open>Fraction\<close> weights, and the rounding of \<^verbatim>\<open>float\<close> weights is not modelled.
\<close>

datatype ('k, 'w) init_obj =
    ObjNone
  | ObjDict "('k, 'w) pydict"
  | ObjWrapper "('k, 'w) DictWrapper"
  | ObjSeq "'k list"

definition DictWrapper_init ::
  "wrapper_class \<Rightarrow> ('k, 'w::field) init_obj \<Rightarrow> string option \<Rightarrow> error + ('k, 'w) DictWrapper" where
  "DictWrapper_init cls obj label =
     (let self0 = \<lparr>self_class = cls,
                    self_label = (case label of Some l \<Rightarrow> l | None \<Rightarrow> DEFAULT_LABEL),
                    self_d = [], self_log = False\<rparr>
      in case obj of
           ObjNone \<Rightarrow> Inr self0
         | _ \<Rightarrow>
           let self1 = (case obj of
                          ObjWrapper w \<Rightarrow>
                            self0\<lparr>self_label := (case label of Some l \<Rightarrow> l | None \<Rightarrow> self_label w)\<rparr>
                        | _ \<Rightarrow> self0);
               self2 = self1\<lparr>self_d := dict_update (self_d self1)
                         (case obj of
                            ObjDict dct \<Rightarrow> dct
                          | ObjWrapper w \<Rightarrow> Items w
                          | ObjSeq seq \<Rightarrow> Counter seq
                          | ObjNone \<Rightarrow> [])\<rparr>
           in if 0 < len self2 \<and> isinstance_Pmf cls
              then (case Normalize self2 1 of
                      Inl e \<Rightarrow> Inl e
                    | Inr (tot, self3) \<Rightarrow> Inr self3)
              else Inr self2)"

definition AddPmf ::
  "('k::plus, 'w::field) DictWrapper \<Rightarrow> ('k, 'w) DictWrapper \<Rightarrow> error + ('k, 'w) DictWrapper" where
  "AddPmf self other =
     (case DictWrapper_init Pmf_class ObjNone None of
        Inl e \<Rightarrow> Inl e
      | Inr pmf \<Rightarrow>
          Inr (foldl (\<lambda>acc (v1, p1).
                 foldl (\<lambda>acc (v2, p2).
                   setitem acc (v1 + v2) (getitem acc (v1 + v2) + p1 * p2)) acc (Items other))
               pmf (Items self)))"

definition SubPmf ::
  "('k::minus, 'w::field) DictWrapper \<Rightarrow> ('k, 'w) DictWrapper \<Rightarrow> error + ('k, 'w) DictWrapper" where
  "SubPmf self other =
     (case DictWrapper_init Pmf_class ObjNone None of
        Inl e \<Rightarrow> Inl e
      | Inr pmf \<Rightarrow>
          Inr (foldl (\<lambda>acc (v1, p1).
                 foldl (\<lambda>acc (v2, p2). Incr acc (v1 - v2) (p1 * p2)) acc (Items other))
               pmf (Items self)))"

subsection \<open>\<^verbatim>\<open>Suite\<close>\<close>

text \<open>
  \<^verbatim>\<open>Likelihood\<close> is the method a concrete suite supplies. It is a parameter here, a total
  function of the observation and the hypothesis that does not read or change the suite.
  Like \<^verbatim>\<open>Normalize\<close>, the methods are written over any type of numbers with \<open>0\<close>, \<open>1\<close>, \<^verbatim>\<open>+\<close>,
  \<^verbatim>\<open>*\<close> and \<^verbatim>\<open>/\<close>: an exact field, or \<open>float64\<close>.
\<close>

definition Update ::
  "('d \<Rightarrow> 'h \<Rightarrow> 'w) \<Rightarrow> ('h, 'w::{zero,one,plus,times,inverse}) DictWrapper \<Rightarrow> 'd
   \<Rightarrow> error + ('w \<times> ('h, 'w) DictWrapper)" where
  "Update Likelihood self data =
     Normalize (foldl (\<lambda>acc hypo. Mult acc hypo (Likelihood data hypo)) self (Values self)) 1"

definition UpdateSet ::
  "('d \<Rightarrow> 'h \<Rightarrow> 'w) \<Rightarrow> ('h, 'w::{zero,one,plus,times,inverse}) DictWrapper \<Rightarrow> 'd list
   \<Rightarrow> error + ('w \<times> ('h, 'w) DictWrapper)" where
  "UpdateSet Likelihood self dataset =
     Normalize (foldl (\<lambda>acc data.
                  foldl (\<lambda>acc hypo. Mult acc hypo (Likelihood data hypo)) acc (Values acc))
                self dataset) 1"

text \<open>
  The other side of the comparison with \<^verbatim>\<open>UpdateSet\<close>: a caller that runs \<^verbatim>\<open>Update\<close> on each
  observation in turn, stops at the first exception, and keeps the suite (the normalizing
  constants that the calls return are dropped).
\<close>

fun sequential_Updates ::
  "('d \<Rightarrow> 'h \<Rightarrow> 'w) \<Rightarrow> ('h, 'w::{zero,one,plus,times,inverse}) DictWrapper \<Rightarrow> 'd list
   \<Rightarrow> error + ('h, 'w) DictWrapper" where
  "sequential_Updates Likelihood self [] = Inr self"
| "sequential_Updates Likelihood self (data # dataset) =
     (case Update Likelihood self data of
        Inl e \<Rightarrow> Inl e
      | Inr (c, self') \<Rightarrow> sequential_Updates Likelihood self' dataset)"

definition Odds :: "pyfloat \<Rightarrow> error + pyfloat" where
  "Odds p = (if p = Fin 1 then Inr PInf else py_truediv p (fl_sub (Fin 1) p))"


text \<open>
  \<^verbatim>\<open>MakeOdds\<close> and \<^verbatim>\<open>MakeProbs\<close> walk \<^verbatim>\<open>self.Items()\<close>, the live view \<^verbatim>\<open>self.d.items()\<close>, and
  write into the dictionary as they go. \<^verbatim>\<open>Set\<close> on the key being visited overwrites its value
  and the walk goes on. \<^verbatim>\<open>Remove\<close> changes the size of the dictionary, and in Python 3 the
  iterator of a dictionary whose size has changed raises \<^verbatim>\<open>RuntimeError\<close> at its next step,
  whether or not an item is left; that is the second branch of \<open>MakeOdds_loop\<close>.
  \<^verbatim>\<open>if prob:\<close> is true of every number but zero, also of \<open>nan\<close>.
\<close>

fun MakeOdds_loop ::
  "('h \<times> pyfloat) list \<Rightarrow> ('h, pyfloat) DictWrapper \<Rightarrow> error + ('h, pyfloat) DictWrapper" where
  "MakeOdds_loop [] self = Inr self"
| "MakeOdds_loop ((hypo, prob) # items) self =
     (if prob \<noteq> Fin 0
      then (case Odds prob of
              Inl e \<Rightarrow> Inl e
            | Inr odds \<Rightarrow> MakeOdds_loop items (Set self hypo odds))
      else (case Remove self hypo of
              Inl e \<Rightarrow> Inl e
            | Inr self' \<Rightarrow> Inl RuntimeError))"

definition MakeOdds :: "('h, pyfloat) DictWrapper \<Rightarrow> error + ('h, pyfloat) DictWrapper" where
  "MakeOdds self = MakeOdds_loop (Items self) self"



text \<open>
  The likelihood of the scenario in the specification: 2 for \<open>H1\<close> and 1 for any other
  hypothesis, whatever the data.
\<close>

definition example_Likelihood :: "nat \<Rightarrow> string \<Rightarrow> rat" where
  "example_Likelihood data hypo = (if hypo = ''H1'' then 2 else 1)"

text \<open>
  What one pass of \<^verbatim>\<open>Mult\<close> over the hypotheses and one rescaling do to the dictionary;
  both are used in the proofs only.
\<close>

definition likelihood_step :: "('d \<Rightarrow> 'h \<Rightarrow> 'w::times) \<Rightarrow> ('h, 'w) pydict \<Rightarrow> 'd \<Rightarrow> ('h, 'w) pydict" where
  "likelihood_step like dct data = map (\<lambda>(h, w). (h, w * like data h)) dct"

definition scale_dict :: "'w::times \<Rightarrow> ('h, 'w) pydict \<Rightarrow> ('h, 'w) pydict" where
  "scale_dict c dct = map (\<lambda>(h, w). (h, w * c)) dct"

text \<open>
  Two devices for the proofs about \<^verbatim>\<open>AddPmf\<close> and \<^verbatim>\<open>SubPmf\<close>: a run of \<^const>\<open>Incr\<close> calls,
  and the list of (key, product) pairs that the nested loop visits, in the order it
  visits them.
\<close>

definition incr_all :: "('k, 'w::{zero,plus}) DictWrapper \<Rightarrow> ('k \<times> 'w) list \<Rightarrow> ('k, 'w) DictWrapper" where
  "incr_all self kts = foldl (\<lambda>acc (k, t). Incr acc k t) self kts"

abbreviation pair_terms :: "('k \<Rightarrow> 'k \<Rightarrow> 'k) \<Rightarrow> ('k \<times> 'w::times) list \<Rightarrow> ('k \<times> 'w) list \<Rightarrow> ('k \<times> 'w) list" where
  "pair_terms f xs ys \<equiv> concat (map (\<lambda>(v1, p1). map (\<lambda>(v2, p2). (f v1 v2, p1 * p2)) ys) xs)"

section \<open>\<^verbatim>\<open>Cdf\<close>\<close>

text \<open>
  Indexing a list or an array with a Python integer: a negative index counts from the end,
  an index out of range raises \<^verbatim>\<open>IndexError\<close>.
\<close>

definition py_index :: "'a list \<Rightarrow> int \<Rightarrow> error + 'a" where
  "py_index a i =
     (let n = int (length a); j = (if i < 0 then n + i else i)
      in if 0 \<le> j \<and> j < n then Inr (a ! nat j) else Inl IndexError)"

text \<open>
  \<^verbatim>\<open>bisect.bisect\<close> (that is \<^verbatim>\<open>bisect_right\<close>) and \<^verbatim>\<open>bisect.bisect_left\<close> of the standard library,
  with the comparison \<^verbatim>\<open><\<close> of the element type as a parameter. They are called with
  \<open>lo = 0\<close> and \<open>hi = len(a)\<close>, so the index \<open>(lo + hi) div 2\<close> they read is in range.
\<close>

function bisect_right_loop :: "('a \<Rightarrow> 'a \<Rightarrow> bool) \<Rightarrow> 'a list \<Rightarrow> 'a \<Rightarrow> nat \<Rightarrow> nat \<Rightarrow> nat" where
  "bisect_right_loop lt a x lo hi =
     (if lo < hi
      then (if lt x (a ! ((lo + hi) div 2))
            then bisect_right_loop lt a x lo ((lo + hi) div 2)
            else bisect_right_loop lt a x ((lo + hi) div 2 + 1) hi)
      else lo)"
  by pat_completeness auto
termination
  by (relation "measure (\<lambda>(lt, a, x, lo, hi). hi - lo)") auto

function bisect_left_loop :: "('a \<Rightarrow> 'a \<Rightarrow> bool) \<Rightarrow> 'a list \<Rightarrow> 'a \<Rightarrow> nat \<Rightarrow> nat \<Rightarrow> nat" where
  "bisect_left_loop lt a x lo hi =
     (if lo < hi
      then (if lt (a ! ((lo + hi) div 2)) x
            then bisect_left_loop lt a x ((lo + hi) div 2 + 1) hi
            else bisect_left_loop lt a x lo ((lo + hi) div 2))
      else lo)"
  by pat_completeness auto
termination
  by (relation "measure (\<lambda>(lt, a, x, lo, hi). hi - lo)") auto

definition bisect_right :: "('a \<Rightarrow> 'a \<Rightarrow> bool) \<Rightarrow> 'a list \<Rightarrow> 'a \<Rightarrow> nat" where
  "bisect_right lt a x = bisect_right_loop lt a x 0 (length a)"

definition bisect_left :: "('a \<Rightarrow> 'a \<Rightarrow> bool) \<Rightarrow> 'a list \<Rightarrow> 'a \<Rightarrow> nat" where
  "bisect_left lt a x = bisect_left_loop lt a x 0 (length a)"

text \<open>
  \<^verbatim>\<open>np.cumsum(freqs, dtype=float)\<close>: the running sums of the weights, as floats.
\<close>

fun cumsum_from :: "pyfloat \<Rightarrow> pyfloat list \<Rightarrow> pyfloat list" where
  "cumsum_from acc [] = []"
| "cumsum_from acc (x # xs) = fl_add acc x # cumsum_from (fl_add acc x) xs"

definition np_cumsum :: "pyfloat list \<Rightarrow> pyfloat list" where
  "np_cumsum a = (case a of [] \<Rightarrow> [] | x # xs \<Rightarrow> x # cumsum_from x xs)"

record 'k Cdf =
  cdf_xs :: "'k list"
  cdf_ps :: "pyfloat list"
  cdf_label :: string

text \<open>
  The constructor of \<^verbatim>\<open>Cdf\<close> dispatches on its arguments; the shapes of call modelled are: no
  source, explicit arrays \<open>xs\<close> and \<open>ps\<close>, another \<^verbatim>\<open>Cdf\<close>, a \<^verbatim>\<open>_DictWrapper\<close>, and a dict or a raw
  sequence, which go through \<^verbatim>\<open>Hist(obj)\<close>. The weights of a wrapper are finite numbers, held
  as rationals. \<^verbatim>\<open>sorted(dw.Items())\<close> sorts the (value, weight) pairs lexicographically.
\<close>

datatype 'k cdf_call =
    CdfNone
  | CdfArrays "'k list" "pyfloat list"
  | CdfOfCdf "'k Cdf"
  | CdfOfWrapper "('k, rat) DictWrapper"
  | CdfOfDict "('k, rat) pydict"
  | CdfOfSeq "'k list"

definition Cdf_init_label :: "'k cdf_call \<Rightarrow> string option \<Rightarrow> string" where
  "Cdf_init_label call label =
     (case label of
        Some l \<Rightarrow> l
      | None \<Rightarrow> (case call of
                   CdfOfCdf c \<Rightarrow> cdf_label c
                 | CdfOfWrapper w \<Rightarrow> self_label w
                 | _ \<Rightarrow> DEFAULT_LABEL))"

definition Cdf_from_wrapper :: "('k::linorder, rat) DictWrapper \<Rightarrow> string \<Rightarrow> error + 'k Cdf" where
  "Cdf_from_wrapper dw lbl =
     (if len dw = 0 then Inr \<lparr>cdf_xs = [], cdf_ps = [], cdf_label = lbl\<rparr>
      else let items = sort (Items dw);
               xs = map fst items;
               freqs = map snd items;
               ps = np_cumsum (map Fin freqs)
           in case py_index ps (- 1) of
                Inl e \<Rightarrow> Inl e
              | Inr total_p \<Rightarrow>
                  Inr \<lparr>cdf_xs = xs, cdf_ps = map (\<lambda>p. np_divide p total_p) ps, cdf_label = lbl\<rparr>)"

definition Cdf_init :: "'k::linorder cdf_call \<Rightarrow> string option \<Rightarrow> error + 'k Cdf" where
  "Cdf_init call label =
     (let lbl = Cdf_init_label call label
      in case call of
           CdfNone \<Rightarrow> Inr \<lparr>cdf_xs = [], cdf_ps = [], cdf_label = lbl\<rparr>
         | CdfArrays xs ps \<Rightarrow> Inr \<lparr>cdf_xs = xs, cdf_ps = ps, cdf_label = lbl\<rparr>
         | CdfOfCdf c \<Rightarrow> Inr \<lparr>cdf_xs = cdf_xs c, cdf_ps = cdf_ps c, cdf_label = lbl\<rparr>
         | CdfOfWrapper w \<Rightarrow> Cdf_from_wrapper w lbl
         | CdfOfDict dct \<Rightarrow>
             (case DictWrapper_init Hist_class (ObjDict dct) None of
                Inl e \<Rightarrow> Inl e
              | Inr dw \<Rightarrow> Cdf_from_wrapper dw lbl)
         | CdfOfSeq seq \<Rightarrow>
             (case DictWrapper_init Hist_class (ObjSeq seq) None of
                Inl e \<Rightarrow> Inl e
              | Inr dw \<Rightarrow> Cdf_from_wrapper dw lbl))"

definition Cdf_Prob :: "'k::linorder Cdf \<Rightarrow> 'k \<Rightarrow> error + pyfloat" where
  "Cdf_Prob self x =
     (case py_index (cdf_xs self) 0 of
        Inl e \<Rightarrow> Inl e
      | Inr x0 \<Rightarrow>
          if x < x0 then Inr (Fin 0)
          else py_index (cdf_ps self) (int (bisect_right (<) (cdf_xs self) x) - 1))"

definition Cdf_Value :: "'k Cdf \<Rightarrow> pyfloat \<Rightarrow> error + 'k" where
  "Cdf_Value self p =
     (if fl_less p (Fin 0) \<or> fl_less (Fin 1) p then Inl ValueError
      else py_index (cdf_xs self) (int (bisect_left fl_less (cdf_ps self) p)))"

text \<open>
  For the statements about \<^verbatim>\<open>Cdf\<close>: the running sums of a list of rationals, and the total
  weight that a dictionary gives to the keys up to \<open>x\<close>.
\<close>

fun partial_sums_from :: "rat \<Rightarrow> rat list \<Rightarrow> rat list" where
  "partial_sums_from acc [] = []"
| "partial_sums_from acc (q # qs) = (acc + q) # partial_sums_from (acc + q) qs"


section \<open>\<^verbatim>\<open>HypothesisTest\<close>\<close>

text \<open>
  \<^verbatim>\<open>HypothesisTest\<close> is abstract: a concrete test supplies \<^verbatim>\<open>TestStatistic\<close> and \<^verbatim>\<open>RunModel\<close>, and
  may override \<^verbatim>\<open>MakeModel\<close>. The three methods are the fields of \<open>test_methods\<close>. What
  \<^verbatim>\<open>MakeModel\<close> stores on \<^verbatim>\<open>self\<close> is the \<open>model\<close>; \<^verbatim>\<open>RunModel\<close> reads the data and the model, may
  change the model (\<^verbatim>\<open>DiffMeansPermute\<close> shuffles its pool in place) and draws from the global
  random generator, whose state is passed in and out as \<open>rng\<close>. The methods may raise. They
  do not assign \<^verbatim>\<open>self.actual\<close>, \<^verbatim>\<open>self.test_stats\<close> or \<^verbatim>\<open>self.test_cdf\<close>: none of the tests of the
  source does. A statistic is an element of a linear order.
\<close>

record ('data, 'model, 'rng, 's) test_methods =
  MakeModel :: "'data \<Rightarrow> error + 'model"
  TestStatistic :: "'model \<Rightarrow> 'data \<Rightarrow> error + 's"
  RunModel :: "'data \<Rightarrow> 'model \<Rightarrow> 'rng \<Rightarrow> error + ('data \<times> 'model \<times> 'rng)"

record ('data, 'model, 's) HypothesisTest =
  ht_data :: 'data
  ht_model :: 'model
  ht_actual :: 's
  ht_test_stats :: "'s list option"
  ht_test_cdf :: "'s Cdf option"

definition HypothesisTest_init ::
  "('data, 'model, 'rng, 's) test_methods \<Rightarrow> 'data \<Rightarrow> error + ('data, 'model, 's) HypothesisTest" where
  "HypothesisTest_init m data =
     (case MakeModel m data of
        Inl e \<Rightarrow> Inl e
      | Inr model \<Rightarrow>
          (case TestStatistic m model data of
             Inl e \<Rightarrow> Inl e
           | Inr actual \<Rightarrow>
               Inr \<lparr>ht_data = data, ht_model = model, ht_actual = actual,
                    ht_test_stats = None, ht_test_cdf = None\<rparr>))"

text \<open>
  \<^verbatim>\<open>[self.TestStatistic(self.RunModel()) for _ in range(iters)]\<close>; \<^verbatim>\<open>range(iters)\<close> is empty for
  \<open>iters \<le> 0\<close>. \<^verbatim>\<open>count / iters\<close> divides two Python integers and raises
  \<^verbatim>\<open>ZeroDivisionError\<close> when \<open>iters\<close> is zero.
\<close>

fun PValue_loop ::
  "('data, 'model, 'rng, 's) test_methods \<Rightarrow> 'data \<Rightarrow> nat \<Rightarrow> 'model \<Rightarrow> 'rng
   \<Rightarrow> error + ('s list \<times> 'model \<times> 'rng)" where
  "PValue_loop m data 0 model rng = Inr ([], model, rng)"
| "PValue_loop m data (Suc n) model rng =
     (case RunModel m data model rng of
        Inl e \<Rightarrow> Inl e
      | Inr (sim, model', rng') \<Rightarrow>
          (case TestStatistic m model' sim of
             Inl e \<Rightarrow> Inl e
           | Inr stat \<Rightarrow>
               (case PValue_loop m data n model' rng' of
                  Inl e \<Rightarrow> Inl e
                | Inr (stats, model'', rng'') \<Rightarrow> Inr (stat # stats, model'', rng''))))"

definition PValue ::
  "('data, 'model, 'rng, 's::linorder) test_methods \<Rightarrow> ('data, 'model, 's) HypothesisTest \<Rightarrow> int \<Rightarrow> 'rng
   \<Rightarrow> error + (rat \<times> ('data, 'model, 's) HypothesisTest \<times> 'rng)" where
  "PValue m self iters rng =
     (case PValue_loop m (ht_data self) (nat iters) (ht_model self) rng of
        Inl e \<Rightarrow> Inl e
      | Inr (stats, model', rng') \<Rightarrow>
          (case Cdf_init (CdfOfSeq stats) None of
             Inl e \<Rightarrow> Inl e
           | Inr cdf \<Rightarrow>
               let self' = self\<lparr>ht_model := model', ht_test_stats := Some stats,
                                ht_test_cdf := Some cdf\<rparr>;
                   count = length (filter (\<lambda>x. ht_actual self' \<le> x) stats)
               in if iters = 0 then Inl ZeroDivisionError
                  else Inr (of_nat count / of_int iters, self', rng')))"

text \<open>
  What it is for the stored values to be the simulated statistics, in the words of the
  specification: \<^verbatim>\<open>PValue\<close> draws the simulated datasets via \<^verbatim>\<open>RunModel\<close>, one after the other,
  and computes \<^verbatim>\<open>TestStatistic\<close> on each. \<open>simulation_start m data k model rng\<close> is the state,
  model and generator, in which the simulation of index \<open>k\<close> starts: the state that \<open>k\<close> runs
  of \<^verbatim>\<open>RunModel\<close> reach from the state in which \<^verbatim>\<open>PValue\<close> is called. \<open>simulated_statistic\<close> is
  one simulation from a state: \<^verbatim>\<open>RunModel\<close>, then \<^verbatim>\<open>TestStatistic\<close> of the dataset it returned.
\<close>

fun simulation_start ::
  "('data, 'model, 'rng, 's) test_methods \<Rightarrow> 'data \<Rightarrow> nat \<Rightarrow> 'model \<Rightarrow> 'rng \<Rightarrow> 'model \<times> 'rng" where
  "simulation_start m data 0 model rng = (model, rng)"
| "simulation_start m data (Suc k) model rng =
     (case RunModel m data model rng of
        Inl e \<Rightarrow> (model, rng)
      | Inr (sim, model', rng') \<Rightarrow> simulation_start m data k model' rng')"

definition simulated_statistic ::
  "('data, 'model, 'rng, 's) test_methods \<Rightarrow> 'data \<Rightarrow> 'model \<times> 'rng \<Rightarrow> error + 's" where
  "simulated_statistic m data state =
     (case state of (model, rng) \<Rightarrow>
        (case RunModel m data model rng of
           Inl e \<Rightarrow> Inl e
         | Inr (sim, model', rng') \<Rightarrow> TestStatistic m model' sim))"

text \<open>
  \<^verbatim>\<open>CoinTest\<close>, the first concrete test of the source. Its data is the pair (heads, tails);
  the counts are integers, held in the rationals as the weights of a \<^verbatim>\<open>Hist\<close> are.
  \<^verbatim>\<open>random.choice\<close> is a parameter of the model. \<open>counter_choice\<close> is a stand-in for it with
  which the model can be run: its state is a counter, and it picks the element at the counter
  modulo the length.
\<close>

definition counter_choice :: "nat \<Rightarrow> 'a list \<Rightarrow> 'a \<times> nat" where
  "counter_choice rng seq = (seq ! (rng mod length seq), rng + 1)"

fun choices :: "('rng \<Rightarrow> string \<Rightarrow> char \<times> 'rng) \<Rightarrow> nat \<Rightarrow> 'rng \<Rightarrow> string \<times> 'rng" where
  "choices choice 0 rng = ([], rng)"
| "choices choice (Suc n) rng =
     (case choice rng ''HT'' of
        (c, rng') \<Rightarrow> (case choices choice n rng' of (cs, rng'') \<Rightarrow> (c # cs, rng'')))"

definition CoinTest_TestStatistic :: "unit \<Rightarrow> rat \<times> rat \<Rightarrow> error + rat" where
  "CoinTest_TestStatistic model data = (case data of (heads, tails) \<Rightarrow> Inr \<bar>heads - tails\<bar>)"

definition CoinTest_RunModel ::
  "('rng \<Rightarrow> string \<Rightarrow> char \<times> 'rng) \<Rightarrow> rat \<times> rat \<Rightarrow> unit \<Rightarrow> 'rng
   \<Rightarrow> error + ((rat \<times> rat) \<times> unit \<times> 'rng)" where
  "CoinTest_RunModel choice data model rng =
     (case data of (heads, tails) \<Rightarrow>
        let n = heads + tails in
        (case choices choice (nat \<lfloor>n\<rfloor>) rng of
           (sample, rng') \<Rightarrow>
             (case DictWrapper_init Hist_class (ObjSeq sample) None of
                Inl e \<Rightarrow> Inl e
              | Inr hist \<Rightarrow> Inr ((getitem hist CHR ''H'', getitem hist CHR ''T''), model, rng'))))"

definition CoinTest ::
  "('rng \<Rightarrow> string \<Rightarrow> char \<times> 'rng) \<Rightarrow> (rat \<times> rat, unit, 'rng, rat) test_methods" where
  "CoinTest choice =
     \<lparr>MakeModel = (\<lambda>data. Inr ()),
      TestStatistic = CoinTest_TestStatistic,
      RunModel = CoinTest_RunModel choice\<rparr>"

section \<open>Survival: \<^verbatim>\<open>EstimateHazardFunction\<close>, \<^verbatim>\<open>HazardFunction\<close>, \<^verbatim>\<open>SurvivalFunction\<close>\<close>

text \<open>
  \<^verbatim>\<open>hist_complete | hist_ongoing\<close> is \<^verbatim>\<open>Counter.__or__\<close> of the standard library: every key of the
  left counter with the larger of its two counts, then the keys that only the right counter
  has, and of both only those whose count is positive.
\<close>

definition Counter_or :: "('k, int) pydict \<Rightarrow> ('k, int) pydict \<Rightarrow> ('k, int) pydict" where
  "Counter_or self other =
     (let result1 = foldl (\<lambda>result (elem, count).
                       let other_count = dict_get other elem 0;
                           newcount = (if count < other_count then other_count else count)
                       in if 0 < newcount then AList.update elem newcount result else result)
                     [] self
      in foldl (\<lambda>result (elem, count).
                  if elem \<notin> fst ` set self \<and> 0 < count then AList.update elem count result else result)
               result1 other)"

text \<open>
  A lifetime is a finite number, held as a rational. \<^verbatim>\<open>np.isnan\<close> is false on every such
  number; the two guards of \<^verbatim>\<open>EstimateHazardFunction\<close> that raise \<^verbatim>\<open>ValueError\<close> on a NaN are
  kept as branches.
\<close>

definition np_isnan :: "rat \<Rightarrow> bool" where
  "np_isnan x = False"

text \<open>
  A pandas \<^verbatim>\<open>Series\<close> is the list of its (label, value) pairs in index order.
  \<^verbatim>\<open>pd.Series(index=ts)\<close> holds \<open>nan\<close> at every label, and \<^verbatim>\<open>lams[t] = v\<close> stores \<open>v\<close> at the label
  \<open>t\<close>. \<^verbatim>\<open>ended / at_risk\<close> divides two Python integers: it raises \<^verbatim>\<open>ZeroDivisionError\<close> when
  \<open>at_risk\<close> is zero and is a float otherwise.
\<close>

record HazardFunction =
  hf_series :: "(rat \<times> pyfloat) list"
  hf_label :: string

record SurvivalFunction =
  sf_ts :: "rat list"
  sf_ss :: "pyfloat list"
  sf_label :: string

fun hazard_loop ::
  "rat list \<Rightarrow> (rat, int) pydict \<Rightarrow> (rat, int) pydict \<Rightarrow> int \<Rightarrow> (rat \<times> pyfloat) list
   \<Rightarrow> error + (rat \<times> pyfloat) list" where
  "hazard_loop [] hist_complete hist_ongoing at_risk lams = Inr lams"
| "hazard_loop (t # ts) hist_complete hist_ongoing at_risk lams =
     (let ended = dict_get hist_complete t 0;
          censored = dict_get hist_ongoing t 0
      in if at_risk = 0 then Inl ZeroDivisionError
         else hazard_loop ts hist_complete hist_ongoing (at_risk - (ended + censored))
                (AList.update t (Fin (of_int ended / of_int at_risk)) lams))"

definition EstimateHazardFunction :: "rat list \<Rightarrow> rat list \<Rightarrow> string \<Rightarrow> error + HazardFunction" where
  "EstimateHazardFunction complete' ongoing label =
     (if list_ex np_isnan complete' then Inl ValueError
      else if list_ex np_isnan ongoing then Inl ValueError
      else let hist_complete = Counter complete';
               hist_ongoing = Counter ongoing;
               ts = sort (map fst (Counter_or hist_complete hist_ongoing));
               at_risk = int (length complete') + int (length ongoing);
               lams = map (\<lambda>t. (t, NaN)) ts
           in case hazard_loop ts hist_complete hist_ongoing at_risk lams of
                Inl e \<Rightarrow> Inl e
              | Inr lams' \<Rightarrow> Inr \<lparr>hf_series = lams', hf_label = label\<rparr>)"

text \<open>
  \<^verbatim>\<open>(1 - self.series).cumprod()\<close>: the running products; pandas leaves \<open>nan\<close> where the series
  has \<open>nan\<close> and carries the product past it.
\<close>

fun cumprod_from :: "pyfloat \<Rightarrow> pyfloat list \<Rightarrow> pyfloat list" where
  "cumprod_from acc [] = []"
| "cumprod_from acc (x # xs) =
     (if x = NaN then NaN # cumprod_from acc xs
      else fl_mul acc x # cumprod_from (fl_mul acc x) xs)"

definition MakeSurvival :: "HazardFunction \<Rightarrow> string \<Rightarrow> SurvivalFunction" where
  "MakeSurvival self label =
     (let ts = map fst (hf_series self);
          ss = cumprod_from (Fin 1) (map (\<lambda>lam. fl_sub (Fin 1) lam) (map snd (hf_series self)))
      in \<lparr>sf_ts = ts, sf_ss = ss, sf_label = label\<rparr>)"

text \<open>
  \<^verbatim>\<open>np.interp(x, xp, fp, left)\<close> is a function of NumPy, not of this repository. It is written
  here from NumPy's documentation and source, for increasing \<open>xp\<close>: \<open>left\<close> below the first
  sample point, the last value above the last one, the value \<open>fp[j]\<close> at a sample point
  \<open>xp[j]\<close>, and the linear interpolant in between.
\<close>

definition np_interp :: "rat \<Rightarrow> rat list \<Rightarrow> pyfloat list \<Rightarrow> pyfloat \<Rightarrow> error + pyfloat" where
  "np_interp x xp fp left =
     (if xp = [] \<or> length fp \<noteq> length xp then Inl ValueError
      else if last xp < x then Inr (last fp)
      else if x < hd xp then Inr left
      else let j = length (takeWhile (\<lambda>a. a \<le> x) xp) - 1
           in if j = length xp - 1 \<or> xp ! j = x then Inr (fp ! j)
              else let slope = fl_div (fl_sub (fp ! (j + 1)) (fp ! j)) (Fin (xp ! (j + 1) - xp ! j))
                   in Inr (fl_add (fl_mul slope (Fin (x - xp ! j))) (fp ! j)))"

definition SurvivalFunction_Prob :: "SurvivalFunction \<Rightarrow> rat \<Rightarrow> error + pyfloat" where
  "SurvivalFunction_Prob self t = np_interp t (sf_ts self) (sf_ss self) (Fin 1)"

section \<open>Dictionary lemmas\<close>

lemma dict_get_update:
  "dict_get (AList.update k v dct) k' dflt = (if k' = k then v else dict_get dct k' dflt)"
  by (simp add: dict_get_def update_conv')

lemma dict_get_Nil: "dict_get [] k dflt = dflt"
  by (simp add: dict_get_def)

lemma dict_get_Cons:
  "dict_get ((k, v) # dct) k' dflt = (if k' = k then v else dict_get dct k' dflt)"
  by (simp add: dict_get_def)

lemma Freq_Incr:
  "Freq (Incr self x t) v = (if v = x then Freq self x + t else Freq self v)"
  by (simp add: Freq_def Incr_def dict_get_update)

lemma keys_Incr: "fst ` set (self_d (Incr self x t)) = insert x (fst ` set (self_d self))"
  by (simp add: Incr_def dom_update)

lemma Subtract_fold_Freq:
  "distinct (map fst items) \<Longrightarrow>
   Freq (foldl (\<lambda>acc (val, freq). Incr acc val (- freq)) self items) v =
   Freq self v - dict_get items v (0::'w::ab_group_add)"
proof (induction items arbitrary: self)
  case Nil
  show ?case by (simp add: dict_get_Nil)
next
  case (Cons a items)
  obtain val freq where a: "a = (val, freq)" by (cases a)
  have notin: "val \<notin> fst ` set items" and dist: "distinct (map fst items)"
    using Cons.prems by (auto simp: a)
  have nf: "dict_get items val 0 = (0::'w)"
    using notin by (simp add: dict_get_def map_of_eq_None_iff [THEN iffD2])
  show ?case
    using Cons.IH [OF dist, of "Incr self val (- freq)"] nf
    by (simp add: a Freq_Incr dict_get_Cons)
qed

lemma Subtract_fold_keys:
  "fst ` set (self_d (foldl (\<lambda>acc (val, freq). Incr acc val (- freq)) self items)) =
   fst ` set (self_d self) \<union> fst ` set (items :: ('k \<times> 'w::ab_group_add) list)"
proof (induction items arbitrary: self)
  case Nil
  show ?case by simp
next
  case (Cons a items)
  obtain val freq where a: "a = (val, freq)" by (cases a)
  show ?case
    by (simp add: a Cons.IH keys_Incr)
qed

section \<open>\<^verbatim>\<open>Hist.Subtract\<close>\<close>

text \<open>
  C9. \<^verbatim>\<open>h.Subtract(g)\<close> leaves \<^verbatim>\<open>h\<close> with, at every value \<open>v\<close>, the frequency \<open>h\<close> had
  at \<open>v\<close> minus the frequency of \<open>v\<close> in \<open>g\<close> (which is 0 for a value not in \<open>g\<close>); every
  value of \<open>g\<close> is a key of the result, and where \<open>g\<close> counts more than \<open>h\<close> the resulting
  frequency is negative: nothing clamps it at zero.
\<close>

theorem C9_Hist_Subtract:
  fixes h g :: "('k, 'w::ordered_ab_group_add) DictWrapper"
  assumes "distinct (map fst (self_d g))"
  shows "Freq (Subtract h g) v = Freq h v - Freq g v
       \<and> fst ` set (self_d (Subtract h g)) = fst ` set (self_d h) \<union> fst ` set (self_d g)
       \<and> (Freq h v < Freq g v \<longrightarrow> Freq (Subtract h g) v < 0)"
proof -
  have eq: "Freq (Subtract h g) v = Freq h v - Freq g v"
    using Subtract_fold_Freq [OF assms, of h v]
    by (simp add: Subtract_def Items_def Freq_def)
  have keys: "fst ` set (self_d (Subtract h g)) = fst ` set (self_d h) \<union> fst ` set (self_d g)"
    by (simp add: Subtract_def Items_def Subtract_fold_keys)
  from eq keys show ?thesis by simp
qed

theorem C9_Hist_Subtract_witness:
  "distinct (map fst (self_d \<lparr>self_class = Hist_class, self_label = DEFAULT_LABEL,
                               self_d = [(''a'', 3::int)], self_log = False\<rparr>))
   \<and> Freq (Subtract \<lparr>self_class = Hist_class, self_label = DEFAULT_LABEL,
                      self_d = [(''a'', 1::int)], self_log = False\<rparr>
                     \<lparr>self_class = Hist_class, self_label = DEFAULT_LABEL,
                      self_d = [(''a'', 3::int)], self_log = False\<rparr>) ''a'' = - 2
   \<and> Freq (Subtract \<lparr>self_class = Hist_class, self_label = DEFAULT_LABEL,
                      self_d = [(''a'', 1::int)], self_log = False\<rparr>
                     \<lparr>self_class = Hist_class, self_label = DEFAULT_LABEL,
                      self_d = [(''a'', 3::int)], self_log = False\<rparr>) ''a'' < 0"
proof -
  let ?h = "\<lparr>self_class = Hist_class, self_label = DEFAULT_LABEL,
             self_d = [(''a'', 1::int)], self_log = False\<rparr>"
  let ?g = "\<lparr>self_class = Hist_class, self_label = DEFAULT_LABEL,
             self_d = [(''a'', 3::int)], self_log = False\<rparr>"
  have dist: "distinct (map fst (self_d ?g))" by simp
  have lt: "Freq ?h ''a'' < Freq ?g ''a''" by (simp add: Freq_def dict_get_def)
  from C9_Hist_Subtract [OF dist, of ?h "''a''"]
  have eq: "Freq (Subtract ?h ?g) ''a'' = Freq ?h ''a'' - Freq ?g ''a''"
    and neg: "Freq ?h ''a'' < Freq ?g ''a'' \<longrightarrow> Freq (Subtract ?h ?g) ''a'' < 0"
    by blast+
  from eq have "Freq (Subtract ?h ?g) ''a'' = - 2" by (simp add: Freq_def dict_get_def)
  moreover from neg lt have "Freq (Subtract ?h ?g) ''a'' < 0" by blast
  ultimately show ?thesis using dist by blast
qed

section \<open>Sums and differences of \<^verbatim>\<open>Pmf\<close>s\<close>

lemma foldl_plus_sum: "foldl (+) (a::'a::monoid_add) xs = a + sum_list xs"
  by (induction xs arbitrary: a) (simp_all add: add.assoc)

lemma Total_sum_list: "Total (self :: ('k, 'w::monoid_add) DictWrapper) = sum_list (map snd (self_d self))"
  by (simp add: Total_def foldl_plus_sum)

lemma sum_snd_update:
  "sum_list (map snd (AList.update k (dict_get dct k 0 + t) dct)) = sum_list (map snd dct) + (t::'w::comm_monoid_add)"
  by (induction dct) (auto simp: dict_get_Nil dict_get_Cons ac_simps)

lemma Total_Incr: "Total (Incr self k t) = Total self + (t::'w::comm_monoid_add)"
  by (simp add: Total_sum_list Incr_def sum_snd_update)

lemma Prob_Incr: "Prob (Incr self x t) v = (if v = x then Prob self x + t else Prob self v)"
  by (simp add: Prob_def Incr_def dict_get_update)

lemma Total_incr_all: "Total (incr_all self kts) = Total self + (sum_list (map snd kts) :: 'w::comm_monoid_add)"
  by (induction kts arbitrary: self) (auto simp: incr_all_def Total_Incr ac_simps)

lemma Prob_incr_all:
  "Prob (incr_all self kts) v = Prob self v + (sum_list (map snd (filter (\<lambda>kt. fst kt = v) kts)) :: 'w::comm_monoid_add)"
  by (induction kts arbitrary: self) (auto simp: incr_all_def Prob_Incr ac_simps)

lemma incr_all_Nil: "incr_all self [] = self"
  by (simp add: incr_all_def)

lemma incr_all_Cons: "incr_all self ((k, t) # kts) = incr_all (Incr self k t) kts"
  by (simp add: incr_all_def)

lemma incr_all_append: "incr_all self (as @ bs) = incr_all (incr_all self as) bs"
  by (simp add: incr_all_def)

lemma keys_incr_all: "fst ` set (self_d (incr_all self kts)) = fst ` set (self_d self) \<union> fst ` set kts"
proof (induction kts arbitrary: self)
  case Nil show ?case by (simp add: incr_all_Nil)
next
  case (Cons a kts)
  obtain k t where a: "a = (k, t)" by (cases a)
  show ?case unfolding a incr_all_Cons Cons.IH keys_Incr by auto
qed

lemma inner_fold_flat:
  "foldl (\<lambda>acc (v2, p2). Incr acc (f v1 v2) (p1 * p2)) self ys
      = incr_all self (map (\<lambda>(v2, p2). (f v1 v2, p1 * p2)) ys)"
proof (induction ys arbitrary: self)
  case Nil show ?case by (simp add: incr_all_Nil)
next
  case (Cons b ys)
  obtain v2 p2 where b: "b = (v2, p2)" by (cases b)
  show ?case by (simp add: b Cons.IH incr_all_Cons)
qed

lemma nested_fold_flat:
  "foldl (\<lambda>acc (v1, p1). foldl (\<lambda>acc (v2, p2). Incr acc (f v1 v2) (p1 * p2)) acc ys) self xs
   = incr_all self (concat (map (\<lambda>(v1, p1). map (\<lambda>(v2, p2). (f v1 v2, p1 * p2)) ys) xs))"
proof (induction xs arbitrary: self)
  case Nil show ?case by (simp add: incr_all_Nil)
next
  case (Cons a xs)
  obtain v1 p1 where a: "a = (v1, p1)" by (cases a)
  let ?F = "\<lambda>acc (v1, p1). foldl (\<lambda>acc (v2, p2). Incr acc (f v1 v2) (p1 * p2)) acc ys"
  let ?row = "\<lambda>(v1, p1). map (\<lambda>(v2, p2). (f v1 v2, p1 * p2)) ys"
  have "foldl ?F self (a # xs) = foldl ?F (foldl (\<lambda>acc (v2, p2). Incr acc (f v1 v2) (p1 * p2)) self ys) xs"
    by (simp add: a)
  also have "\<dots> = incr_all (foldl (\<lambda>acc (v2, p2). Incr acc (f v1 v2) (p1 * p2)) self ys) (concat (map ?row xs))"
    by (rule Cons.IH)
  also have "\<dots> = incr_all self (concat (map ?row (a # xs)))"
    by (simp add: a inner_fold_flat incr_all_append)
  finally show ?case .
qed

lemma distinct_incr_all:
  "distinct (map fst (self_d self)) \<Longrightarrow> distinct (map fst (self_d (incr_all self kts)))"
proof (induction kts arbitrary: self)
  case Nil then show ?case by (simp add: incr_all_Nil)
next
  case (Cons a kts)
  obtain k t where a: "a = (k, t)" by (cases a)
  have "distinct (map fst (self_d (Incr self k t)))"
    using Cons.prems by (simp add: Incr_def distinct_update)
  then show ?case unfolding a incr_all_Cons by (rule Cons.IH)
qed

lemma sum_pair_terms:
  "sum_list (map snd (pair_terms f xs ys)) = sum_list (map snd xs) * (sum_list (map snd ys) :: 'w::comm_semiring_0)"
proof (induction xs)
  case Nil show ?case by simp
next
  case (Cons a xs)
  obtain v1 p1 where a: "a = (v1, p1)" by (cases a)
  have row: "sum_list (map snd (map (\<lambda>(v2, p2). (f v1 v2, p1 * p2)) ys)) = p1 * sum_list (map snd ys)"
    by (induction ys) (auto simp: distrib_left)
  show ?case using Cons.IH row by (simp add: a distrib_right)
qed

lemma filter_pair_terms:
  "sum_list (map snd (filter (\<lambda>kt. fst kt = k) (pair_terms f xs ys)))
   = (sum_list [p1 * p2. (v1, p1) \<leftarrow> xs, (v2, p2) \<leftarrow> ys, f v1 v2 = k] :: 'w::comm_semiring_0)"
proof (induction xs)
  case Nil show ?case by simp
next
  case (Cons a xs)
  obtain v1 p1 where a: "a = (v1, p1)" by (cases a)
  have row: "sum_list (map snd (filter (\<lambda>kt. fst kt = k) (map (\<lambda>(v2, p2). (f v1 v2, p1 * p2)) ys)))
             = sum_list (concat (map (\<lambda>(v2, p2). if f v1 v2 = k then [p1 * p2] else []) ys))"
    by (induction ys) auto
  show ?case using Cons.IH row by (simp add: a)
qed

lemma keys_pair_terms:
  "fst ` set (pair_terms f xs ys) = (\<lambda>(x, y). f x y) ` (fst ` set xs \<times> fst ` set ys)"
  by (force simp: image_iff)

lemma setitem_getitem_Incr: "setitem acc k (getitem acc k + t) = Incr acc k t"
  by (simp add: setitem_def getitem_def Incr_def)

lemma Pmf_empty: "DictWrapper_init Pmf_class ObjNone None =
   Inr \<lparr>self_class = Pmf_class, self_label = DEFAULT_LABEL, self_d = [], self_log = False\<rparr>"
  by (simp add: DictWrapper_init_def)

lemma AddPmf_eq:
  "AddPmf a b = Inr (incr_all \<lparr>self_class = Pmf_class, self_label = DEFAULT_LABEL, self_d = [], self_log = False\<rparr>
                      (pair_terms (+) (Items a) (Items b)))"
  by (simp add: AddPmf_def Pmf_empty setitem_getitem_Incr nested_fold_flat)

lemma SubPmf_eq:
  "SubPmf a b = Inr (incr_all \<lparr>self_class = Pmf_class, self_label = DEFAULT_LABEL, self_d = [], self_log = False\<rparr>
                      (pair_terms (-) (Items a) (Items b)))"
  by (simp add: SubPmf_def Pmf_empty nested_fold_flat)


lemma Total_empty_Pmf:
  "Total \<lparr>self_class = c, self_label = l, self_d = [], self_log = g\<rparr> = (0::'w::monoid_add)"
  by (simp add: Total_def)

text \<open>
  C1. \<^verbatim>\<open>AddPmf\<close> and \<^verbatim>\<open>SubPmf\<close> never fail and return a fresh \<^verbatim>\<open>Pmf\<close> whose keys are exactly
  the sums (differences) \<open>v1 + v2\<close> (\<open>v1 - v2\<close>) of a key of the left and a key of the right
  operand, and whose weight at a key \<open>k\<close> is the sum of the products \<open>p1 * p2\<close> over all pairs
  of items with \<open>v1 + v2 = k\<close> (\<open>v1 - v2 = k\<close>). Nothing is renormalized: the total of the
  result is the product of the two totals, so it is 1 when both inputs sum to 1. A point
  mass at 0 plus a point mass at \<open>v\<close> is the point mass at \<open>v\<close>, in either order, and the
  point mass at 0 minus the one at \<open>v\<close> is the point mass at \<open>- v\<close>.
\<close>

theorem C1_AddPmf_SubPmf:
  fixes a b :: "('k::group_add, 'w::field) DictWrapper"
  shows "\<exists>r s. AddPmf a b = Inr r \<and> SubPmf a b = Inr s
     \<and> self_class r = Pmf_class \<and> self_class s = Pmf_class
     \<and> distinct (map fst (self_d r)) \<and> distinct (map fst (self_d s))
     \<and> fst ` set (self_d r) = (\<lambda>(v1, v2). v1 + v2) ` (fst ` set (Items a) \<times> fst ` set (Items b))
     \<and> fst ` set (self_d s) = (\<lambda>(v1, v2). v1 - v2) ` (fst ` set (Items a) \<times> fst ` set (Items b))
     \<and> (\<forall>k. Prob r k = sum_list [p1 * p2. (v1, p1) \<leftarrow> Items a, (v2, p2) \<leftarrow> Items b, v1 + v2 = k])
     \<and> (\<forall>k. Prob s k = sum_list [p1 * p2. (v1, p1) \<leftarrow> Items a, (v2, p2) \<leftarrow> Items b, v1 - v2 = k])
     \<and> Total r = Total a * Total b \<and> Total s = Total a * Total b
     \<and> (Total a = 1 \<and> Total b = 1 \<longrightarrow> Total r = 1 \<and> Total s = 1)
     \<and> (self_d a = [(0, 1)] \<and> self_d b = [(v, 1)] \<longrightarrow> self_d r = [(v, 1)] \<and> self_d s = [(- v, 1)])
     \<and> (self_d a = [(v, 1)] \<and> self_d b = [(0, 1)] \<longrightarrow> self_d r = [(v, 1)])"
proof -
  let ?e = "\<lparr>self_class = Pmf_class, self_label = DEFAULT_LABEL, self_d = [], self_log = False\<rparr>
            :: ('k, 'w) DictWrapper"
  let ?r = "incr_all ?e (pair_terms (+) (Items a) (Items b))"
  let ?s = "incr_all ?e (pair_terms (-) (Items a) (Items b))"
  have cls: "\<And>kts. self_class (incr_all ?e kts) = Pmf_class"
  proof -
    have "\<And>kts (x :: ('k, 'w) DictWrapper). self_class (incr_all x kts) = self_class x"
    proof -
      fix kts :: "('k \<times> 'w) list" and x :: "('k, 'w) DictWrapper"
      show "self_class (incr_all x kts) = self_class x"
        by (induction kts arbitrary: x) (auto simp: incr_all_def Incr_def)
    qed
    then show "\<And>kts. self_class (incr_all ?e kts) = Pmf_class" by simp
  qed
  have dist: "\<And>kts. distinct (map fst (self_d (incr_all ?e kts)))"
    by (rule distinct_incr_all) simp
  have keys_r: "fst ` set (self_d ?r) = (\<lambda>(v1, v2). v1 + v2) ` (fst ` set (Items a) \<times> fst ` set (Items b))"
    by (simp only: keys_incr_all keys_pair_terms) simp
  have keys_s: "fst ` set (self_d ?s) = (\<lambda>(v1, v2). v1 - v2) ` (fst ` set (Items a) \<times> fst ` set (Items b))"
    by (simp only: keys_incr_all keys_pair_terms) simp
  have prob_r: "\<And>k. Prob ?r k = sum_list [p1 * p2. (v1, p1) \<leftarrow> Items a, (v2, p2) \<leftarrow> Items b, v1 + v2 = k]"
    by (simp only: Prob_incr_all filter_pair_terms) (simp add: Prob_def dict_get_Nil)
  have prob_s: "\<And>k. Prob ?s k = sum_list [p1 * p2. (v1, p1) \<leftarrow> Items a, (v2, p2) \<leftarrow> Items b, v1 - v2 = k]"
    by (simp only: Prob_incr_all filter_pair_terms) (simp add: Prob_def dict_get_Nil)
  have tot_r: "Total ?r = Total a * Total b"
    by (simp only: Total_incr_all sum_pair_terms Total_empty_Pmf) (simp add: Total_sum_list Items_def)
  have tot_s: "Total ?s = Total a * Total b"
    by (simp only: Total_incr_all sum_pair_terms Total_empty_Pmf) (simp add: Total_sum_list Items_def)
  have pm1: "self_d a = [(0, 1)] \<and> self_d b = [(v, 1)] \<longrightarrow> self_d ?r = [(v, 1)] \<and> self_d ?s = [(- v, 1)]"
    by (simp add: Items_def incr_all_def Incr_def dict_get_Nil)
  have pm2: "self_d a = [(v, 1)] \<and> self_d b = [(0, 1)] \<longrightarrow> self_d ?r = [(v, 1)]"
    by (simp add: Items_def incr_all_def Incr_def dict_get_Nil)
  have "AddPmf a b = Inr ?r" "SubPmf a b = Inr ?s"
    by (rule AddPmf_eq, rule SubPmf_eq)
  with cls dist keys_r keys_s prob_r prob_s tot_r tot_s pm1 pm2 show ?thesis
    by (intro exI [of _ ?r] exI [of _ ?s]) simp
qed


theorem C1_AddPmf_SubPmf_witness:
  "Total \<lparr>self_class = Pmf_class, self_label = DEFAULT_LABEL, self_d = [(0::int, 1::rat)], self_log = False\<rparr> = 1
   \<and> Total \<lparr>self_class = Pmf_class, self_label = DEFAULT_LABEL, self_d = [(5::int, 1::rat)], self_log = False\<rparr> = 1
   \<and> (\<exists>r s. AddPmf \<lparr>self_class = Pmf_class, self_label = DEFAULT_LABEL, self_d = [(0::int, 1::rat)], self_log = False\<rparr>
                     \<lparr>self_class = Pmf_class, self_label = DEFAULT_LABEL, self_d = [(5, 1)], self_log = False\<rparr> = Inr r
           \<and> SubPmf \<lparr>self_class = Pmf_class, self_label = DEFAULT_LABEL, self_d = [(0::int, 1::rat)], self_log = False\<rparr>
                     \<lparr>self_class = Pmf_class, self_label = DEFAULT_LABEL, self_d = [(5, 1)], self_log = False\<rparr> = Inr s
           \<and> Total r = 1 \<and> Total s = 1 \<and> self_d r = [(5, 1)] \<and> self_d s = [(- 5, 1)])"
proof -
  let ?a = "\<lparr>self_class = Pmf_class, self_label = DEFAULT_LABEL, self_d = [(0::int, 1::rat)], self_log = False\<rparr>"
  let ?b = "\<lparr>self_class = Pmf_class, self_label = DEFAULT_LABEL, self_d = [(5::int, 1::rat)], self_log = False\<rparr>"
  have ta: "Total ?a = 1" and tb: "Total ?b = 1"
    by (simp_all add: Total_def)
  from C1_AddPmf_SubPmf [of ?a ?b 5] show ?thesis
  proof (elim exE conjE)
    fix r s
    assume rs: "AddPmf ?a ?b = Inr r" "SubPmf ?a ?b = Inr s"
      and tot: "Total ?a = 1 \<and> Total ?b = 1 \<longrightarrow> Total r = 1 \<and> Total s = 1"
      and pm: "self_d ?a = [(0, 1)] \<and> self_d ?b = [(5, 1)] \<longrightarrow> self_d r = [(5, 1)] \<and> self_d s = [(- 5, 1)]"
    from tot ta tb have t: "Total r = 1" "Total s = 1" by blast+
    from pm have d: "self_d r = [(5, 1)]" "self_d s = [(- 5, 1)]" by simp_all
    show ?thesis
      by (intro conjI exI [of _ r] exI [of _ s]) (rule ta tb rs t d)+
  qed
qed

section \<open>\<^verbatim>\<open>Pmf.Normalize\<close>\<close>

lemma update_as_map:
  "distinct (map fst dct) \<Longrightarrow> map_of dct x = Some p \<Longrightarrow>
   AList.update x v dct = map (\<lambda>(k, q). (k, if k = x then v else q)) dct"
proof (induction dct)
  case Nil then show ?case by simp
next
  case (Cons a dct)
  obtain k q where a: "a = (k, q)" by (cases a)
  show ?case
  proof (cases "k = x")
    case True
    then have "x \<notin> fst ` set dct" using Cons.prems(1) by (auto simp: a)
    then have "map (\<lambda>(k, q). (k, if k = x then v else q)) dct = dct"
      by (induction dct) auto
    then show ?thesis using True by (simp add: a)
  next
    case False
    then show ?thesis using Cons by (simp add: a)
  qed
qed

lemma Normalize_loop_map:
  "distinct (map fst dct) \<Longrightarrow> distinct ks \<Longrightarrow> set ks \<subseteq> fst ` set dct \<Longrightarrow>
   Normalize_loop ks dct f = Inr (map (\<lambda>(k, p). (k, if k \<in> set ks then p * f else p)) dct)"
proof (induction ks arbitrary: dct)
  case Nil
  then show ?case by (simp add: case_prod_beta)
next
  case (Cons x ks)
  from Cons.prems(3) have "x \<in> fst ` set dct" by simp
  then obtain p where p: "map_of dct x = Some p"
    by (cases "map_of dct x") (auto simp: map_of_eq_None_iff)
  let ?dct = "AList.update x (p * f) dct"
  have upd: "?dct = map (\<lambda>(k, q). (k, if k = x then p * f else q)) dct"
    by (rule update_as_map [OF Cons.prems(1) p])
  have keys: "map fst ?dct = map fst dct"
    unfolding upd by (simp add: case_prod_beta comp_def)
  have IH: "Normalize_loop ks ?dct f = Inr (map (\<lambda>(k, p). (k, if k \<in> set ks then p * f else p)) ?dct)"
    using Cons.prems by (intro Cons.IH) (auto simp: keys dom_update)
  have xks: "x \<notin> set ks" using Cons.prems(2) by simp
  have vals: "\<And>k q. (k, q) \<in> set dct \<Longrightarrow> k = x \<Longrightarrow> q = p"
    using p map_of_is_SomeI [OF Cons.prems(1)] by fastforce
  have "map (\<lambda>(k, p). (k, if k \<in> set ks then p * f else p)) ?dct
        = map (\<lambda>(k, p). (k, if k \<in> set (x # ks) then p * f else p)) dct"
    unfolding upd using xks vals by (auto simp: case_prod_beta)
  then show ?case using IH p by (simp add: dict_getitem_def)
qed

lemma Normalize_loop_all:
  assumes "distinct (map fst dct)"
  shows "Normalize_loop (map fst dct) dct f = Inr (map (\<lambda>(k, p). (k, p * f)) dct)"
proof -
  have "map (\<lambda>(k, p). (k, if k \<in> set (map fst dct) then p * f else p)) dct = map (\<lambda>(k, p). (k, p * f)) dct"
    by (auto simp: case_prod_beta)
  then show ?thesis
    using Normalize_loop_map [OF assms assms, of f] by simp
qed

lemma sum_scaled: "sum_list (map snd (map (\<lambda>(k, p). (k, p * f)) dct)) = sum_list (map snd dct) * (f::'w::semiring_0)"
  by (induction dct) (auto simp: distrib_right)

lemma Normalize_eq:
  fixes self :: "('k, 'w::field) DictWrapper"
  assumes "distinct (map fst (self_d self))"
  shows "Normalize self fraction =
     (if self_log self \<or> Total self = 0 then Inl ValueError
      else Inr (Total self,
                self\<lparr>self_d := map (\<lambda>(x, p). (x, p * (fraction / Total self))) (self_d self)\<rparr>))"
  by (simp add: Normalize_def Let_def Normalize_loop_all [OF assms])




section \<open>The constructor of \<^verbatim>\<open>_DictWrapper\<close>\<close>

lemma update_fresh: "k \<notin> fst ` set acc \<Longrightarrow> AList.update k v acc = acc @ [(k, v)]"
  by (induction acc) auto

lemma dict_update_append:
  "distinct (map fst (acc @ items)) \<Longrightarrow> dict_update acc items = acc @ items"
proof (induction items arbitrary: acc)
  case Nil show ?case by (simp add: dict_update_def)
next
  case (Cons a items)
  obtain k v where a: "a = (k, v)" by (cases a)
  have fresh: "k \<notin> fst ` set acc" using Cons.prems by (auto simp: a)
  have "dict_update acc (a # items) = dict_update (AList.update k v acc) items"
    by (simp add: dict_update_def a)
  also have "\<dots> = dict_update (acc @ [(k, v)]) items"
    by (simp add: update_fresh [OF fresh])
  also have "\<dots> = (acc @ [(k, v)]) @ items"
    using Cons.prems by (intro Cons.IH) (simp add: a)
  finally show ?case by (simp add: a)
qed

lemma dict_update_empty: "distinct (map fst items) \<Longrightarrow> dict_update [] items = items"
  using dict_update_append [of "[]" items] by simp

lemma Counter_fold_props:
  fixes acc :: "('k, 'w::semiring_1) pydict"
  assumes "distinct (map fst acc)"
  shows "distinct (map fst (foldl (\<lambda>acc x. AList.update x (dict_get acc x 0 + 1) acc) acc seq))
       \<and> sum_list (map snd (foldl (\<lambda>acc x. AList.update x (dict_get acc x 0 + 1) acc) acc seq))
           = sum_list (map snd acc) + of_nat (length seq)
       \<and> fst ` set (foldl (\<lambda>acc x. AList.update x (dict_get acc x 0 + 1) acc) acc seq)
           = fst ` set acc \<union> set seq
       \<and> (\<forall>x. dict_get (foldl (\<lambda>acc x. AList.update x (dict_get acc x 0 + 1) acc) acc seq) x 0
           = dict_get acc x 0 + of_nat (count_list seq x))"
  using assms
proof (induction seq arbitrary: acc)
  case Nil show ?case using Nil by simp
next
  case (Cons y seq)
  let ?acc = "AList.update y (dict_get acc y 0 + 1) acc"
  have d: "distinct (map fst ?acc)" using Cons.prems by (rule distinct_update)
  have s: "sum_list (map snd ?acc) = sum_list (map snd acc) + 1" by (rule sum_snd_update)
  from Cons.IH [OF d] s show ?case
    by (simp add: dom_update dict_get_update add.assoc)
qed

lemma Counter_props:
  "distinct (map fst (Counter seq :: ('k, 'w::semiring_1) pydict))"
  "sum_list (map snd (Counter seq :: ('k, 'w::semiring_1) pydict)) = of_nat (length seq)"
  "fst ` set (Counter seq :: ('k, 'w::semiring_1) pydict) = set seq"
  "dict_get (Counter seq :: ('k, 'w::semiring_1) pydict) x 0 = of_nat (count_list seq x)"
  using Counter_fold_props [of "[] :: ('k, 'w) pydict" seq]
  by (simp_all add: Counter_def dict_get_Nil)


lemma init_empty:
  "DictWrapper_init cls ObjNone label =
     Inr \<lparr>self_class = cls, self_label = (case label of Some l \<Rightarrow> l | None \<Rightarrow> DEFAULT_LABEL),
          self_d = [], self_log = False\<rparr>"
  "DictWrapper_init cls (ObjSeq []) label =
     Inr \<lparr>self_class = cls, self_label = (case label of Some l \<Rightarrow> l | None \<Rightarrow> DEFAULT_LABEL),
          self_d = [], self_log = False\<rparr>"
  "DictWrapper_init cls (ObjDict []) label =
     Inr \<lparr>self_class = cls, self_label = (case label of Some l \<Rightarrow> l | None \<Rightarrow> DEFAULT_LABEL),
          self_d = [], self_log = False\<rparr>"
  by (simp_all add: DictWrapper_init_def dict_update_def Counter_def len_def)

lemma init_empty_wrapper:
  "self_d w = [] \<Longrightarrow> DictWrapper_init cls (ObjWrapper w) label =
     Inr \<lparr>self_class = cls, self_label = (case label of Some l \<Rightarrow> l | None \<Rightarrow> self_label w),
          self_d = [], self_log = False\<rparr>"
  by (simp add: DictWrapper_init_def dict_update_def Items_def len_def)

lemma init_Pmf_dict:
  fixes dct :: "('k, 'w::field) pydict"
  assumes "distinct (map fst dct)" "dct \<noteq> []" "isinstance_Pmf cls"
  shows "DictWrapper_init cls (ObjDict dct) label =
     (let self2 = \<lparr>self_class = cls, self_label = (case label of Some l \<Rightarrow> l | None \<Rightarrow> DEFAULT_LABEL),
                    self_d = dct, self_log = False\<rparr>
      in if Total self2 = 0 then Inl ValueError
         else Inr (self2\<lparr>self_d := map (\<lambda>(x, p). (x, p * (1 / Total self2))) dct\<rparr>))"
  using assms
  by (simp add: DictWrapper_init_def dict_update_empty len_def Normalize_eq Let_def)

lemma init_Pmf_wrapper:
  fixes w :: "('k, 'w::field) DictWrapper"
  assumes "distinct (map fst (self_d w))" "self_d w \<noteq> []" "isinstance_Pmf cls"
  shows "DictWrapper_init cls (ObjWrapper w) label =
     (let self2 = \<lparr>self_class = cls, self_label = (case label of Some l \<Rightarrow> l | None \<Rightarrow> self_label w),
                    self_d = self_d w, self_log = False\<rparr>
      in if Total self2 = 0 then Inl ValueError
         else Inr (self2\<lparr>self_d := map (\<lambda>(x, p). (x, p * (1 / Total self2))) (self_d w)\<rparr>))"
  using assms
  by (simp add: DictWrapper_init_def dict_update_empty len_def Normalize_eq Let_def Items_def)

lemma init_Pmf_seq:
  fixes seq :: "'k list"
  assumes "seq \<noteq> []" "isinstance_Pmf cls"
  shows "DictWrapper_init cls (ObjSeq seq) label =
     Inr (\<lparr>self_class = cls, self_label = (case label of Some l \<Rightarrow> l | None \<Rightarrow> DEFAULT_LABEL),
           self_d = map (\<lambda>(x, p). (x, p * (1 / of_nat (length seq)))) (Counter seq :: ('k, 'w::field_char_0) pydict),
           self_log = False\<rparr>)"
proof -
  let ?c = "Counter seq :: ('k, 'w) pydict"
  let ?self2 = "\<lparr>self_class = cls, self_label = (case label of Some l \<Rightarrow> l | None \<Rightarrow> DEFAULT_LABEL),
                    self_d = ?c, self_log = False\<rparr>"
  have ne: "?c \<noteq> []" using Counter_props(3) [of seq, where 'w = 'w] assms(1) by auto
  have t: "Total ?self2 = of_nat (length seq)" by (simp add: Total_sum_list Counter_props)
  have nz: "Total ?self2 \<noteq> 0" using assms(1) by (simp add: t)
  show ?thesis
    using init_Pmf_dict [OF Counter_props(1) ne assms(2), of label] nz t
    by (simp add: DictWrapper_init_def Let_def)
qed


lemma dict_get_scaled:
  "dict_get (map (\<lambda>(x, p). (x, p * c)) dct) k 0 = dict_get dct k 0 * (c::'w::mult_zero)"
  by (induction dct) (auto simp: dict_get_Nil dict_get_Cons)

text \<open>
  C4, as the constructor has it. A \<^verbatim>\<open>Pmf\<close> built from a non-empty raw sample succeeds and sums
  to 1, each value weighing its share of the sample. A \<^verbatim>\<open>Pmf\<close> built from no source, from an
  empty sample, an empty dict or an empty wrapper is left empty and \<^verbatim>\<open>Normalize\<close> is not
  called. A \<^verbatim>\<open>Pmf\<close> built from a non-empty dict or a non-empty \<^verbatim>\<open>Hist\<close>/\<^verbatim>\<open>Pmf\<close> is normalized
  all the same: every weight is divided by the source's total and the result sums to 1, and
  when that total is zero the constructor raises \<^verbatim>\<open>ValueError\<close>. The constructor takes the
  source and a label only; there is no argument that suppresses the normalization.
\<close>

theorem C4_Pmf_init:
  fixes seq :: "'k list" and w :: "('k, 'w::field_char_0) DictWrapper" and dct :: "('k, 'w) pydict"
  shows
   "(seq \<noteq> [] \<longrightarrow>
       (\<exists>r :: ('k, 'w) DictWrapper. DictWrapper_init Pmf_class (ObjSeq seq) label = Inr r
          \<and> Total r = 1
          \<and> (\<forall>x. Prob r x = of_nat (count_list seq x) / of_nat (length seq))))
  \<and> (\<exists>r :: ('k, 'w) DictWrapper. DictWrapper_init Pmf_class ObjNone label = Inr r \<and> self_d r = [])
  \<and> (\<exists>r :: ('k, 'w) DictWrapper. DictWrapper_init Pmf_class (ObjSeq []) label = Inr r \<and> self_d r = [])
  \<and> (\<exists>r :: ('k, 'w) DictWrapper. DictWrapper_init Pmf_class (ObjDict []) label = Inr r \<and> self_d r = [])
  \<and> (self_d w = [] \<longrightarrow>
       (\<exists>r. DictWrapper_init Pmf_class (ObjWrapper w) label = Inr r \<and> self_d r = []))
  \<and> (distinct (map fst (self_d w)) \<and> self_d w \<noteq> [] \<and> Total w \<noteq> 0 \<longrightarrow>
       (\<exists>r. DictWrapper_init Pmf_class (ObjWrapper w) label = Inr r
          \<and> self_d r = map (\<lambda>(x, p). (x, p / Total w)) (self_d w) \<and> Total r = 1))
  \<and> (distinct (map fst (self_d w)) \<and> self_d w \<noteq> [] \<and> Total w = 0 \<longrightarrow>
       DictWrapper_init Pmf_class (ObjWrapper w) label = Inl ValueError)
  \<and> (distinct (map fst dct) \<and> dct \<noteq> [] \<and> sum_list (map snd dct) \<noteq> 0 \<longrightarrow>
       (\<exists>r. DictWrapper_init Pmf_class (ObjDict dct) label = Inr r
          \<and> self_d r = map (\<lambda>(x, p). (x, p / sum_list (map snd dct))) dct \<and> Total r = 1))
  \<and> (distinct (map fst dct) \<and> dct \<noteq> [] \<and> sum_list (map snd dct) = 0 \<longrightarrow>
       DictWrapper_init Pmf_class (ObjDict dct) label = Inl ValueError)"
proof -
  have seq: "\<exists>r :: ('k, 'w) DictWrapper. DictWrapper_init Pmf_class (ObjSeq seq) label = Inr r
          \<and> Total r = 1
          \<and> (\<forall>x. Prob r x = of_nat (count_list seq x) / of_nat (length seq))" if ne: "seq \<noteq> []"
  proof -
    let ?r = "\<lparr>self_class = Pmf_class,
               self_label = (case label of Some l \<Rightarrow> l | None \<Rightarrow> DEFAULT_LABEL),
               self_d = map (\<lambda>(x, p). (x, p * (1 / of_nat (length seq)))) (Counter seq :: ('k, 'w) pydict),
               self_log = False\<rparr>"
    have 1: "DictWrapper_init Pmf_class (ObjSeq seq) label = Inr ?r"
      by (rule init_Pmf_seq [OF ne]) simp
    have nz: "(of_nat (length seq) :: 'w) \<noteq> 0" using ne by simp
    have 2: "Total ?r = 1"
    proof -
      have "Total ?r = sum_list (map snd (map (\<lambda>(x, p). (x, p * (1 / of_nat (length seq)))) (Counter seq :: ('k, 'w) pydict)))"
        by (simp only: Total_sum_list DictWrapper.simps)
      also have "\<dots> = sum_list (map snd (Counter seq :: ('k, 'w) pydict)) * (1 / of_nat (length seq))"
        by (rule sum_scaled)
      also have "\<dots> = 1"
        using nz by (simp add: Counter_props)
      finally show ?thesis .
    qed
    have 3: "Prob ?r x = of_nat (count_list seq x) / of_nat (length seq)" for x
    proof -
      have "Prob ?r x = dict_get (map (\<lambda>(x, p). (x, p * (1 / of_nat (length seq)))) (Counter seq :: ('k, 'w) pydict)) x 0"
        by (simp only: Prob_def DictWrapper.simps)
      also have "\<dots> = dict_get (Counter seq :: ('k, 'w) pydict) x 0 * (1 / of_nat (length seq))"
        by (rule dict_get_scaled)
      also have "\<dots> = of_nat (count_list seq x) / of_nat (length seq)"
        by (simp add: Counter_props)
      finally show ?thesis .
    qed
    from 1 2 3 show ?thesis by blast
  qed
  have wr: "\<exists>r. DictWrapper_init Pmf_class (ObjWrapper w) label = Inr r
          \<and> self_d r = map (\<lambda>(x, p). (x, p / Total w)) (self_d w) \<and> Total r = 1"
    if "distinct (map fst (self_d w)) \<and> self_d w \<noteq> [] \<and> Total w \<noteq> 0"
  proof -
    from that have nz: "sum_list (map snd (self_d w)) \<noteq> 0" by (simp add: Total_sum_list)
    have "sum_list (map snd (map (\<lambda>(x, p). (x, p * (1 / sum_list (map snd (self_d w))))) (self_d w))) = 1"
      using nz by (simp only: sum_scaled) simp
    then show ?thesis
      using that init_Pmf_wrapper [of w Pmf_class label]
      by (simp add: Let_def Total_sum_list)
  qed
  have wz: "DictWrapper_init Pmf_class (ObjWrapper w) label = Inl ValueError"
    if "distinct (map fst (self_d w)) \<and> self_d w \<noteq> [] \<and> Total w = 0"
    using that init_Pmf_wrapper [of w Pmf_class label] by (simp add: Let_def Total_sum_list)
  have dr: "\<exists>r. DictWrapper_init Pmf_class (ObjDict dct) label = Inr r
          \<and> self_d r = map (\<lambda>(x, p). (x, p / sum_list (map snd dct))) dct \<and> Total r = 1"
    if "distinct (map fst dct) \<and> dct \<noteq> [] \<and> sum_list (map snd dct) \<noteq> 0"
  proof -
    have "sum_list (map snd (map (\<lambda>(x, p). (x, p * (1 / sum_list (map snd dct)))) dct)) = 1"
      using that by (simp only: sum_scaled) simp
    then show ?thesis
      using that init_Pmf_dict [of dct Pmf_class label]
      by (simp add: Let_def Total_sum_list)
  qed
  have dz: "DictWrapper_init Pmf_class (ObjDict dct) label = Inl ValueError"
    if "distinct (map fst dct) \<and> dct \<noteq> [] \<and> sum_list (map snd dct) = 0"
    using that init_Pmf_dict [of dct Pmf_class label] by (simp add: Let_def Total_sum_list)
  show ?thesis
    using seq wr wz dr dz init_empty_wrapper [of w Pmf_class label]
    by (simp add: init_empty)
qed

text \<open>
  C4 as claimed fails for a source that already holds probabilities: building a \<^verbatim>\<open>Pmf\<close> from
  the \<^verbatim>\<open>Pmf\<close> \<open>{1: 1/4, 2: 1/4}\<close> gives \<open>{1: 1/2, 2: 1/2}\<close>, not a copy of the source.
\<close>

theorem C4_counterexample:
  "DictWrapper_init Pmf_class
     (ObjWrapper \<lparr>self_class = Pmf_class, self_label = DEFAULT_LABEL,
                  self_d = [(1::int, 1 / 4 :: rat), (2, 1 / 4)], self_log = False\<rparr>) None
   = Inr \<lparr>self_class = Pmf_class, self_label = DEFAULT_LABEL,
          self_d = [(1, 1 / 2), (2, 1 / 2)], self_log = False\<rparr>
   \<and> DictWrapper_init Pmf_class
     (ObjWrapper \<lparr>self_class = Pmf_class, self_label = DEFAULT_LABEL,
                  self_d = [(1::int, 1 / 4 :: rat), (2, 1 / 4)], self_log = False\<rparr>) None
   \<noteq> Inr \<lparr>self_class = Pmf_class, self_label = DEFAULT_LABEL,
          self_d = [(1, 1 / 4), (2, 1 / 4)], self_log = False\<rparr>"
  by (simp add: DictWrapper_init_def dict_update_def Items_def len_def Normalize_def Total_def
      dict_getitem_def Let_def)


theorem C4_Pmf_init_witness:
  "[1, 1, 2 :: int] \<noteq> []
   \<and> (\<exists>r :: (int, rat) DictWrapper.
         DictWrapper_init Pmf_class (ObjSeq [1, 1, 2]) None = Inr r \<and> Total r = 1 \<and> Prob r 1 = 2 / 3)
   \<and> (\<exists>r :: (int, rat) DictWrapper.
         DictWrapper_init Pmf_class
           (ObjWrapper \<lparr>self_class = Pmf_class, self_label = DEFAULT_LABEL,
                        self_d = [(1, 1 / 4), (2, 1 / 4)], self_log = False\<rparr>) None = Inr r
         \<and> self_d r = [(1, 1 / 2), (2, 1 / 2)] \<and> Total r = 1)
   \<and> (\<exists>r :: (int, rat) DictWrapper.
         DictWrapper_init Pmf_class
           (ObjWrapper \<lparr>self_class = Pmf_class, self_label = DEFAULT_LABEL,
                        self_d = [], self_log = False\<rparr>) None = Inr r
         \<and> self_d r = [])
   \<and> DictWrapper_init Pmf_class
         (ObjWrapper \<lparr>self_class = Pmf_class, self_label = DEFAULT_LABEL,
                      self_d = [(1::int, 0::rat)], self_log = False\<rparr>) None = Inl ValueError
   \<and> (\<exists>r :: (int, rat) DictWrapper.
         DictWrapper_init Pmf_class (ObjDict [(1, 2)]) None = Inr r \<and> self_d r = [(1, 1)] \<and> Total r = 1)
   \<and> DictWrapper_init Pmf_class (ObjDict [(1::int, 0::rat)]) None = Inl ValueError"
proof -
  let ?w = "\<lparr>self_class = Pmf_class, self_label = DEFAULT_LABEL,
             self_d = [(1::int, 1 / 4 :: rat), (2, 1 / 4)], self_log = False\<rparr>"
  let ?e = "\<lparr>self_class = Pmf_class, self_label = DEFAULT_LABEL,
             self_d = [] :: (int, rat) pydict, self_log = False\<rparr>"
  let ?z = "\<lparr>self_class = Pmf_class, self_label = DEFAULT_LABEL,
             self_d = [(1::int, 0::rat)], self_log = False\<rparr>"
  note A = C4_Pmf_init [of "[1, 1, 2 :: int]" None ?w "[(1::int, 2::rat)]"]
  note B = C4_Pmf_init [of "[1, 1, 2 :: int]" None ?e "[(1::int, 0::rat)]"]
  note C = C4_Pmf_init [of "[1, 1, 2 :: int]" None ?z "[(1::int, 0::rat)]"]
  have tw: "Total ?w = 1 / 2" and tz: "Total ?z = 0" by (simp_all add: Total_def)
  have 1: "\<exists>r :: (int, rat) DictWrapper.
         DictWrapper_init Pmf_class (ObjSeq [1, 1, 2]) None = Inr r \<and> Total r = 1 \<and> Prob r 1 = 2 / 3"
    using A [THEN conjunct1] by auto
  have 2: "\<exists>r :: (int, rat) DictWrapper.
         DictWrapper_init Pmf_class (ObjWrapper ?w) None = Inr r
         \<and> self_d r = [(1, 1 / 2), (2, 1 / 2)] \<and> Total r = 1"
    using A [THEN conjunct2, THEN conjunct2, THEN conjunct2, THEN conjunct2, THEN conjunct2, THEN conjunct1] tw
    by simp
  have 3: "\<exists>r :: (int, rat) DictWrapper.
         DictWrapper_init Pmf_class (ObjWrapper ?e) None = Inr r \<and> self_d r = []"
    using B [THEN conjunct2, THEN conjunct2, THEN conjunct2, THEN conjunct2, THEN conjunct1]
    by simp
  have 4: "DictWrapper_init Pmf_class (ObjWrapper ?z) None = Inl ValueError"
    using C [THEN conjunct2, THEN conjunct2, THEN conjunct2, THEN conjunct2, THEN conjunct2,
             THEN conjunct2, THEN conjunct1] tz
    by simp
  have 5: "\<exists>r :: (int, rat) DictWrapper.
         DictWrapper_init Pmf_class (ObjDict [(1, 2)]) None = Inr r \<and> self_d r = [(1, 1)] \<and> Total r = 1"
    using A [THEN conjunct2, THEN conjunct2, THEN conjunct2, THEN conjunct2, THEN conjunct2,
             THEN conjunct2, THEN conjunct2, THEN conjunct1]
    by simp
  have 6: "DictWrapper_init Pmf_class (ObjDict [(1::int, 0::rat)]) None = Inl ValueError"
    using B [THEN conjunct2, THEN conjunct2, THEN conjunct2, THEN conjunct2, THEN conjunct2,
             THEN conjunct2, THEN conjunct2, THEN conjunct2]
    by simp
  from 1 2 3 4 5 6 show ?thesis by simp
qed

section \<open>Rounding to binary64\<close>

lemma bit_length_bounds:
  "0 < n \<Longrightarrow> 2 ^ (bit_length n - 1) \<le> n \<and> n < 2 ^ bit_length n"
proof (induction n rule: bit_length.induct)
  case (1 n)
  show ?case
  proof (cases "n div 2 = 0")
    case True
    with 1(2) have "n = 1" by (simp add: div_eq_0_iff)
    then show ?thesis by (simp add: bit_length.simps)
  next
    case False
    then have pos: "0 < n div 2" by simp
    from 1(1) [OF _ pos] 1(2)
    have IH: "2 ^ (bit_length (n div 2) - 1) \<le> n div 2" "n div 2 < 2 ^ bit_length (n div 2)" by simp_all
    have bl: "bit_length n = 1 + bit_length (n div 2)" using 1(2) by (subst bit_length.simps) simp
    have bp: "0 < bit_length (n div 2)" using pos by (subst bit_length.simps) simp
    then have e: "2 ^ bit_length (n div 2) = 2 * (2::nat) ^ (bit_length (n div 2) - 1)"
      by (cases "bit_length (n div 2)") simp_all
    have "2 * (n div 2) \<le> n" by simp
    with IH(1) e have lo: "2 ^ (bit_length n - 1) \<le> n" by (simp add: bl)
    have "n < 2 * (n div 2) + 2" by presburger
    with IH(2) have hi: "n < 2 ^ bit_length n" by (simp add: bl)
    from lo hi show ?thesis by simp
  qed
qed

lemma pow2_power_int: "pow2 k = power_int 2 k"
  by (simp add: pow2_def power_int_def inverse_eq_divide power_one_over)

lemma pow2_pos: "0 < pow2 k"
  by (simp add: pow2_power_int)

lemma pow2_add: "pow2 (a + b) = pow2 a * pow2 b"
  by (simp add: pow2_power_int power_int_add)

lemma pow2_strict_mono: "a < b \<Longrightarrow> pow2 a < pow2 b"
  by (simp add: pow2_power_int power_int_strict_increasing)

lemma pow2_mono: "a \<le> b \<Longrightarrow> pow2 a \<le> pow2 b"
  by (simp add: pow2_power_int power_int_increasing)

lemma pow2_nat: "pow2 (int n) = 2 ^ n"
  by (simp add: pow2_def)

lemma pow2_neg_nat: "pow2 (- int n) = 1 / 2 ^ n"
  by (simp add: pow2_power_int power_int_minus field_simps)

text \<open>\<open>floor_log2\<close> is the binary exponent of a positive rational, and the only one.\<close>

lemma floor_log2_bounds:
  assumes "0 < q"
  shows "pow2 (floor_log2 q) \<le> q \<and> q < pow2 (floor_log2 q + 1)"
proof (cases "1 \<le> q")
  case True
  define n where "n = nat \<lfloor>q\<rfloor>"
  have n1: "0 < n" using True by (simp add: n_def)
  have fl: "floor_log2 q = int (bit_length n) - 1" using True by (simp add: floor_log2_def n_def)
  from bit_length_bounds [OF n1]
  have b: "2 ^ (bit_length n - 1) \<le> n" "n < 2 ^ bit_length n" by simp_all
  have bp: "0 < bit_length n" using n1 by (subst bit_length.simps) simp
  have e: "floor_log2 q = int (bit_length n - 1)" using bp by (simp add: fl)
  have nq: "rat_of_nat n \<le> q" using True by (simp add: n_def)
  have "(2::rat) ^ (bit_length n - 1) = rat_of_nat (2 ^ (bit_length n - 1))" by simp
  also have "\<dots> \<le> rat_of_nat n" using b(1) by (simp only: of_nat_le_iff)
  finally have "(2::rat) ^ (bit_length n - 1) \<le> rat_of_nat n" .
  from this nq have "(2::rat) ^ (bit_length n - 1) \<le> q" by (rule order_trans)
  then have lo: "pow2 (floor_log2 q) \<le> q" by (simp only: e pow2_nat)
  have "q < of_int \<lfloor>q\<rfloor> + 1" by linarith
  also have "\<dots> = rat_of_nat (n + 1)" using True by (simp add: n_def)
  also have "\<dots> \<le> rat_of_nat (2 ^ bit_length n)"
  proof -
    have "n + 1 \<le> 2 ^ bit_length n" using b(2) by simp
    then show ?thesis by (simp only: of_nat_le_iff)
  qed
  finally have "q < 2 ^ bit_length n" by simp
  moreover have "floor_log2 q + 1 = int (bit_length n)" by (simp add: fl)
  ultimately have hi: "q < pow2 (floor_log2 q + 1)" by (simp add: pow2_nat)
  from lo hi show ?thesis by simp
next
  case False
  define r where "r = 1 / q"
  define c where "c = nat \<lceil>r\<rceil>"
  have r1: "1 < r" using False assms by (simp add: r_def)
  have c2: "2 \<le> c" using r1 by (simp add: c_def) linarith
  define b where "b = bit_length (c - 1)"
  have fl: "floor_log2 q = - int b" using False by (simp add: floor_log2_def b_def c_def r_def)
  from bit_length_bounds [of "c - 1"] c2
  have bb: "2 ^ (b - 1) \<le> c - 1" "c - 1 < 2 ^ b" by (simp_all add: b_def)
  have bp: "0 < b" unfolding b_def using c2 by (subst bit_length.simps) simp
  have rc: "r \<le> rat_of_nat c" using r1 by (simp add: c_def)
  have "c \<le> 2 ^ b" using bb(2) by simp
  then have "rat_of_nat c \<le> rat_of_nat (2 ^ b)" by (simp only: of_nat_le_iff)
  with rc have "r \<le> rat_of_nat (2 ^ b)" by (rule order_trans)
  then have "r \<le> 2 ^ b" by simp
  then have lo: "pow2 (floor_log2 q) \<le> q"
    using assms by (simp add: fl pow2_neg_nat r_def field_simps)
  have "rat_of_nat (2 ^ (b - 1)) \<le> rat_of_nat (c - 1)" using bb(1) by (simp only: of_nat_le_iff)
  also have "\<dots> = of_int \<lceil>r\<rceil> - 1" using c2 r1 by (simp add: c_def of_nat_diff)
  also have "\<dots> < r" by linarith
  finally have "2 ^ (b - 1) < r" by simp
  moreover have "floor_log2 q + 1 = - int (b - 1)" using bp by (simp add: fl)
  ultimately have hi: "q < pow2 (floor_log2 q + 1)"
    using assms by (simp add: pow2_neg_nat r_def field_simps)
  from lo hi show ?thesis by simp
qed

lemma floor_log2_eqI:
  assumes "pow2 e \<le> q" "q < pow2 (e + 1)"
  shows "floor_log2 q = e"
proof -
  have q: "0 < q" using assms(1) pow2_pos [of e] by simp
  note b = floor_log2_bounds [OF q]
  have "\<not> floor_log2 q < e"
  proof
    assume "floor_log2 q < e"
    then have "pow2 (floor_log2 q + 1) \<le> pow2 e" by (intro pow2_mono) simp
    with b assms(1) show False by simp
  qed
  moreover have "\<not> e < floor_log2 q"
  proof
    assume "e < floor_log2 q"
    then have "pow2 (e + 1) \<le> pow2 (floor_log2 q)" by (intro pow2_mono) simp
    with b assms(2) show False by simp
  qed
  ultimately show ?thesis by simp
qed

lemma round_half_even_of_int: "round_half_even (of_int k) = k"
  by (simp add: round_half_even_def)

lemma round_half_even_small: "\<bar>x\<bar> \<le> 1 / 2 \<Longrightarrow> round_half_even x = 0"
proof (cases "0 \<le> x")
  case True
  assume a: "\<bar>x\<bar> \<le> 1 / 2"
  with True have f: "\<lfloor>x\<rfloor> = 0" by (simp add: floor_eq_iff)
  show ?thesis using a True by (simp add: round_half_even_def f)
next
  case False
  assume a: "\<bar>x\<bar> \<le> 1 / 2"
  with False have f: "\<lfloor>x\<rfloor> = - 1" by (simp add: floor_eq_iff)
  show ?thesis using a False by (simp add: round_half_even_def f Let_def)
qed

text \<open>
  The rounding leaves every binary64 number as it is, and takes every value of magnitude at
  most \<open>2^-1075\<close>, half the least subnormal number, to zero.
\<close>

lemma round_double_representable:
  assumes q: "q = of_int m * pow2 e" and m: "\<bar>m\<bar> < 2 ^ 53" and e: "- 1074 \<le> e" "e \<le> 971"
  shows "round_double q = Fin q"
proof (cases "q = 0")
  case True
  then show ?thesis by (simp add: round_double_def)
next
  case False
  define L where "L = floor_log2 \<bar>q\<bar>"
  define u where "u = max L (- 1022) - 52"
  have aq: "0 < \<bar>q\<bar>" using False by simp
  have am: "\<bar>q\<bar> = of_int \<bar>m\<bar> * pow2 e" using pow2_pos [of e] by (simp add: q abs_mult)
  have "rat_of_int \<bar>m\<bar> < rat_of_int (2 ^ 53)" using m by (simp only: of_int_less_iff)
  then have "\<bar>q\<bar> < 2 ^ 53 * pow2 e" using pow2_pos [of e] by (simp add: am)
  also have "\<dots> = pow2 53 * pow2 e" by (simp add: pow2_def)
  also have "\<dots> = pow2 (53 + e)" by (simp only: pow2_add)
  finally have lt: "\<bar>q\<bar> < pow2 (53 + e)" .
  from floor_log2_bounds [OF aq] have "pow2 L \<le> \<bar>q\<bar>" by (simp add: L_def)
  with lt have "pow2 L < pow2 (53 + e)" by simp
  then have "L < 53 + e" using pow2_mono [of "53 + e" L] by (cases "L < 53 + e") auto
  then have ue: "u \<le> e" using e(1) by (simp add: u_def)
  define k where "k = m * 2 ^ nat (e - u)"
  have "pow2 e = pow2 (e - u) * pow2 u" by (simp add: pow2_add [symmetric])
  also have "pow2 (e - u) = 2 ^ nat (e - u)" using ue by (simp add: pow2_def)
  finally have pe: "pow2 e = 2 ^ nat (e - u) * pow2 u" .
  have qk: "q = of_int k * pow2 u" by (simp add: q pe k_def)
  have div: "q / pow2 u = of_int k" using pow2_pos [of u] by (simp add: qk)
  have "pow2 (53 + e) \<le> pow2 1024" using e(2) by (intro pow2_mono) simp
  with lt have no: "\<not> pow2 1024 \<le> \<bar>q\<bar>" by simp
  show ?thesis
    using False no
    by (simp add: round_double_def Let_def L_def [symmetric] u_def [symmetric] div
        round_half_even_of_int qk [symmetric])
qed

lemma round_double_underflow:
  assumes "\<bar>q\<bar> \<le> 1 / 2 ^ 1075"
  shows "round_double q = Fin 0"
proof (cases "q = 0")
  case True
  then show ?thesis by (simp add: round_double_def)
next
  case False
  define L where "L = floor_log2 \<bar>q\<bar>"
  have aq: "0 < \<bar>q\<bar>" using False by simp
  have p: "pow2 (- 1075) = 1 / 2 ^ 1075" by (simp add: pow2_def)
  from floor_log2_bounds [OF aq] have "pow2 L \<le> \<bar>q\<bar>" by (simp add: L_def)
  with assms have "pow2 L \<le> pow2 (- 1075)" by (simp only: p)
  then have "L \<le> - 1075" using pow2_strict_mono [of "- 1075" L] by (cases "L \<le> - 1075") auto
  then have mx: "max L (- 1022) - 52 = - 1074" by simp
  have u: "pow2 (- 1074) = 1 / 2 ^ 1074" by (simp add: pow2_def)
  have "\<bar>q / pow2 (- 1074)\<bar> = \<bar>q\<bar> * 2 ^ 1074" by (simp add: u abs_mult)
  also have "\<dots> \<le> 1 / 2 ^ 1075 * 2 ^ 1074" using assms by (intro mult_right_mono) simp_all
  also have "\<dots> = 1 / 2" by simp
  finally have "round_half_even (q / pow2 (- 1074)) = 0" by (rule round_half_even_small)
  then show ?thesis
    using False pow2_pos [of 1024]
    by (simp add: round_double_def Let_def L_def [symmetric] mx)
qed

text \<open>
  A value between two binary64 numbers goes to the nearer one: \<^verbatim>\<open>0.1\<close> is
  \<open>3602879701896397 / 2^55\<close>, as \<^verbatim>\<open>(0.1).as_integer_ratio()\<close> says.
\<close>

lemma floor_rat_numeral: "\<lfloor>numeral a / numeral b :: rat\<rfloor> = numeral a div numeral b"
  using floor_divide_of_int_eq [of "numeral a" "numeral b", where 'a = rat] by simp

lemma round_double_tenth: "round_double (1 / 10) = Fin (3602879701896397 / 36028797018963968)"
proof -
  have "floor_log2 (1 / 10) = - 4" by (rule floor_log2_eqI) (simp_all add: pow2_def)
  then show ?thesis
    by (simp add: round_double_def Let_def pow2_def round_half_even_def floor_rat_numeral)
qed

section \<open>\<^verbatim>\<open>Suite.Update\<close> and \<^verbatim>\<open>Suite.UpdateSet\<close>\<close>

lemma Mult_loop_map:
  fixes self :: "('h, 'w::{zero,times}) DictWrapper"
  shows "distinct (map fst (self_d self)) \<Longrightarrow> distinct ks \<Longrightarrow> set ks \<subseteq> fst ` set (self_d self) \<Longrightarrow>
   foldl (\<lambda>acc hypo. Mult acc hypo (f hypo)) self ks
   = self\<lparr>self_d := map (\<lambda>(h, w). (h, if h \<in> set ks then w * f h else w)) (self_d self)\<rparr>"
proof (induction ks arbitrary: self)
  case Nil
  then show ?case by (simp add: case_prod_beta)
next
  case (Cons x ks)
  let ?dct = "self_d self"
  from Cons.prems(3) have "x \<in> fst ` set ?dct" by simp
  then obtain p where p: "map_of ?dct x = Some p"
    by (cases "map_of ?dct x") (auto simp: map_of_eq_None_iff)
  have upd: "self_d (Mult self x (f x)) = map (\<lambda>(k, q). (k, if k = x then p * f x else q)) ?dct"
    using update_as_map [OF Cons.prems(1) p, of "p * f x"] p
    by (simp add: Mult_def dict_get_def)
  have keys: "map fst (self_d (Mult self x (f x))) = map fst ?dct"
    unfolding upd by (simp add: case_prod_beta comp_def)
  have rest: "Mult self x (f x) = self\<lparr>self_d := self_d (Mult self x (f x))\<rparr>"
    by (simp add: Mult_def)
  have IH: "foldl (\<lambda>acc hypo. Mult acc hypo (f hypo)) (Mult self x (f x)) ks
      = (Mult self x (f x))\<lparr>self_d := map (\<lambda>(h, w). (h, if h \<in> set ks then w * f h else w))
                                     (self_d (Mult self x (f x)))\<rparr>"
  proof (rule Cons.IH)
    show "distinct (map fst (self_d (Mult self x (f x))))" using Cons.prems(1) by (simp add: keys)
    show "distinct ks" using Cons.prems(2) by simp
    have "fst ` set (self_d (Mult self x (f x))) = set (map fst (self_d (Mult self x (f x))))" by simp
    also have "\<dots> = fst ` set ?dct" unfolding keys by simp
    finally show "set ks \<subseteq> fst ` set (self_d (Mult self x (f x)))" using Cons.prems(3) by simp
  qed
  have xks: "x \<notin> set ks" using Cons.prems(2) by simp
  have vals: "\<And>k q. (k, q) \<in> set ?dct \<Longrightarrow> k = x \<Longrightarrow> q = p"
    using p map_of_is_SomeI [OF Cons.prems(1)] by fastforce
  have "map (\<lambda>(h, w). (h, if h \<in> set ks then w * f h else w)) (self_d (Mult self x (f x)))
        = map (\<lambda>(h, w). (h, if h \<in> set (x # ks) then w * f h else w)) ?dct"
    unfolding upd using xks vals by (auto simp: case_prod_beta)
  then show ?case using IH by (simp add: Mult_def)
qed

lemma Mult_loop_all:
  fixes self :: "('h, 'w::{zero,times}) DictWrapper"
  assumes "distinct (map fst (self_d self))"
  shows "foldl (\<lambda>acc hypo. Mult acc hypo (like data hypo)) self (Values self)
         = self\<lparr>self_d := likelihood_step like (self_d self) data\<rparr>"
proof -
  have "map (\<lambda>(h, w). (h, if h \<in> set (map fst (self_d self)) then w * like data h else w)) (self_d self)
        = likelihood_step like (self_d self) data"
    by (auto simp: likelihood_step_def case_prod_beta)
  then show ?thesis
    using Mult_loop_map [OF assms assms, of "like data"] by (simp add: Values_def)
qed

lemma keys_likelihood_step: "map fst (likelihood_step like dct data) = map fst dct"
  by (simp add: likelihood_step_def case_prod_beta comp_def)

lemma keys_scale_dict: "map fst (scale_dict c dct) = map fst dct"
  by (simp add: scale_dict_def case_prod_beta comp_def)

lemma UpdateSet_loop:
  fixes self :: "('h, 'w::{zero,times}) DictWrapper"
  assumes "distinct (map fst (self_d self))"
  shows "foldl (\<lambda>acc data. foldl (\<lambda>acc hypo. Mult acc hypo (like data hypo)) acc (Values acc)) self dataset
         = self\<lparr>self_d := foldl (likelihood_step like) (self_d self) dataset\<rparr>"
  using assms
proof (induction dataset arbitrary: self)
  case Nil show ?case by simp
next
  case (Cons data dataset)
  let ?s = "self\<lparr>self_d := likelihood_step like (self_d self) data\<rparr>"
  have d: "distinct (map fst (self_d ?s))" using Cons.prems by (simp add: keys_likelihood_step)
  show ?case
    using Cons.IH [OF d] by (simp add: Mult_loop_all [OF Cons.prems])
qed


lemma Update_eq:
  fixes self :: "('h, 'w::field) DictWrapper"
  assumes "distinct (map fst (self_d self))"
  shows "Update like self data =
     (if self_log self \<or> sum_list (map snd (likelihood_step like (self_d self) data)) = 0
      then Inl ValueError
      else Inr (sum_list (map snd (likelihood_step like (self_d self) data)),
                self\<lparr>self_d := scale_dict (1 / sum_list (map snd (likelihood_step like (self_d self) data)))
                                  (likelihood_step like (self_d self) data)\<rparr>))"
proof -
  let ?s = "self\<lparr>self_d := likelihood_step like (self_d self) data\<rparr>"
  have d: "distinct (map fst (self_d ?s))" using assms by (simp add: keys_likelihood_step)
  show ?thesis
    unfolding Update_def Mult_loop_all [OF assms] Normalize_eq [OF d]
    by (simp add: Total_sum_list scale_dict_def)
qed

lemma UpdateSet_eq:
  fixes self :: "('h, 'w::field) DictWrapper"
  assumes "distinct (map fst (self_d self))"
  shows "UpdateSet like self dataset =
     (if self_log self \<or> sum_list (map snd (foldl (likelihood_step like) (self_d self) dataset)) = 0
      then Inl ValueError
      else Inr (sum_list (map snd (foldl (likelihood_step like) (self_d self) dataset)),
                self\<lparr>self_d := scale_dict (1 / sum_list (map snd (foldl (likelihood_step like) (self_d self) dataset)))
                                  (foldl (likelihood_step like) (self_d self) dataset)\<rparr>))"
proof -
  let ?s = "self\<lparr>self_d := foldl (likelihood_step like) (self_d self) dataset\<rparr>"
  have k: "map fst (foldl (likelihood_step like) dct dataset) = map fst dct" for dct :: "('h, 'w) pydict"
    by (induction dataset arbitrary: dct) (simp_all add: keys_likelihood_step)
  have d: "distinct (map fst (self_d ?s))" using assms by (simp add: k)
  show ?thesis
    unfolding UpdateSet_def UpdateSet_loop [OF assms] Normalize_eq [OF d]
    by (simp add: Total_sum_list scale_dict_def)
qed

lemma sum_scale_dict: "sum_list (map snd (scale_dict c dct)) = sum_list (map snd dct) * (c::'w::semiring_0)"
  unfolding scale_dict_def by (rule sum_scaled)

lemma scale_scale: "scale_dict a (scale_dict b dct) = scale_dict (b * a) (dct :: ('h, 'w::semigroup_mult) pydict)"
  by (induction dct) (auto simp: scale_dict_def mult.assoc)

lemma step_scale: "likelihood_step like (scale_dict c dct) data
                   = scale_dict c (likelihood_step like dct data :: ('h, 'w::comm_semiring_0) pydict)"
  by (induction dct) (auto simp: scale_dict_def likelihood_step_def ac_simps)

lemma fold_step_scale:
  "foldl (likelihood_step like) (scale_dict c dct) dataset
   = scale_dict c (foldl (likelihood_step like) dct dataset :: ('h, 'w::comm_semiring_0) pydict)"
  by (induction dataset arbitrary: dct) (simp_all add: step_scale)

lemma keys_fold_step: "map fst (foldl (likelihood_step like) dct dataset) = map fst dct"
  by (induction dataset arbitrary: dct) (simp_all add: keys_likelihood_step)


lemma zero_step:
  fixes dct :: "('h, 'w::mult_zero) pydict"
  assumes "\<forall>w\<in>snd ` set dct. w = 0"
  shows "\<forall>w\<in>snd ` set (likelihood_step like dct data). w = 0"
  using assms by (auto simp: likelihood_step_def)

lemma zero_fold_step:
  fixes dct :: "('h, 'w::mult_zero) pydict"
  assumes "\<forall>w\<in>snd ` set dct. w = 0"
  shows "\<forall>w\<in>snd ` set (foldl (likelihood_step like) dct dataset). w = 0"
  using assms
proof (induction dataset arbitrary: dct)
  case Nil then show ?case by simp
next
  case (Cons data dataset)
  show ?case using Cons.IH [OF zero_step [OF Cons.prems]] by simp
qed

lemma zero_sum:
  fixes dct :: "('h, 'w::comm_monoid_add) pydict"
  assumes "\<forall>w\<in>snd ` set dct. w = 0"
  shows "sum_list (map snd dct) = 0"
  using assms by (induction dct) auto

lemma nonneg_sum_zero:
  fixes dct :: "('h, 'w::linordered_field) pydict"
  assumes "\<forall>w\<in>snd ` set dct. 0 \<le> w" "sum_list (map snd dct) = 0"
  shows "\<forall>w\<in>snd ` set dct. w = 0"
proof -
  have "\<And>x. x \<in> set (map snd dct) \<Longrightarrow> 0 \<le> x" using assms(1) by auto
  then have "(sum_list (map snd dct) = 0) = (\<forall>x\<in>set (map snd dct). x = 0)"
    by (rule sum_list_nonneg_eq_0_iff)
  with assms(2) show ?thesis by simp
qed

lemma nonneg_step:
  fixes dct :: "('h, 'w::linordered_field) pydict"
  assumes "\<forall>w\<in>snd ` set dct. 0 \<le> w" "\<forall>h\<in>fst ` set dct. 0 \<le> like data h"
  shows "\<forall>w\<in>snd ` set (likelihood_step like dct data). 0 \<le> w"
  using assms by (fastforce simp: likelihood_step_def)

lemma nonneg_scale:
  fixes dct :: "('h, 'w::linordered_field) pydict"
  assumes "\<forall>w\<in>snd ` set dct. 0 \<le> w" "0 \<le> c"
  shows "\<forall>w\<in>snd ` set (scale_dict c dct). 0 \<le> w"
  using assms by (fastforce simp: scale_dict_def)

lemma nonneg_sum:
  fixes dct :: "('h, 'w::linordered_field) pydict"
  assumes "\<forall>w\<in>snd ` set dct. 0 \<le> w"
  shows "0 \<le> sum_list (map snd dct)"
  using assms by (intro sum_list_nonneg) auto

lemma sequential_Updates_eq:
  fixes self :: "('h, 'w::linordered_field) DictWrapper"
  assumes "dataset \<noteq> []" "distinct (map fst (self_d self))" "\<not> self_log self"
    and "\<forall>w\<in>snd ` set (self_d self). 0 \<le> w"
    and "\<forall>data\<in>set dataset. \<forall>h\<in>fst ` set (self_d self). 0 \<le> like data h"
  shows "sequential_Updates like self dataset =
     (if sum_list (map snd (foldl (likelihood_step like) (self_d self) dataset)) = 0
      then Inl ValueError
      else Inr (self\<lparr>self_d := scale_dict (1 / sum_list (map snd (foldl (likelihood_step like) (self_d self) dataset)))
                                  (foldl (likelihood_step like) (self_d self) dataset)\<rparr>))"
  using assms
proof (induction dataset arbitrary: self)
  case Nil
  then show ?case by simp
next
  case (Cons data rest)
  let ?m1 = "likelihood_step like (self_d self) data"
  let ?t1 = "sum_list (map snd ?m1)"
  let ?M = "foldl (likelihood_step like) ?m1 rest"
  have dist: "distinct (map fst (self_d self))" by (rule Cons.prems(2))
  have nlog: "\<not> self_log self" by (rule Cons.prems(3))
  have nn1: "\<forall>w\<in>snd ` set ?m1. 0 \<le> w"
    using Cons.prems(4,5) by (intro nonneg_step) auto
  show ?case
  proof (cases "?t1 = 0")
    case True
    have "\<forall>w\<in>snd ` set ?m1. w = 0" by (rule nonneg_sum_zero [OF nn1 True])
    then have "sum_list (map snd ?M) = 0" by (intro zero_sum zero_fold_step)
    then show ?thesis using True by (simp add: Update_eq [OF dist])
  next
    case False
    let ?s1 = "self\<lparr>self_d := scale_dict (1 / ?t1) ?m1\<rparr>"
    have upd: "Update like self data = Inr (?t1, ?s1)"
      using False nlog by (simp add: Update_eq [OF dist])
    have pos: "0 \<le> 1 / ?t1" using nonneg_sum [OF nn1] by simp
    show ?thesis
    proof (cases "rest = []")
      case True
      then show ?thesis using upd False by simp
    next
      case rne: False
      have d1: "distinct (map fst (self_d ?s1))"
        using dist by (simp add: keys_scale_dict keys_likelihood_step)
      have k1: "fst ` set (self_d ?s1) = fst ` set (self_d self)"
      proof -
        have "map fst (self_d ?s1) = map fst (self_d self)"
          by (simp add: keys_scale_dict keys_likelihood_step)
        then have "set (map fst (self_d ?s1)) = set (map fst (self_d self))" by (rule arg_cong)
        then show ?thesis by (simp only: set_map)
      qed
      have nn: "\<forall>w\<in>snd ` set (self_d ?s1). 0 \<le> w"
        using nonneg_scale [OF nn1 pos] by simp
      have lk: "\<forall>data\<in>set rest. \<forall>h\<in>fst ` set (self_d ?s1). 0 \<le> like data h"
        unfolding k1 using Cons.prems(5) by simp
      have l1: "\<not> self_log ?s1" using nlog by simp
      have fold: "foldl (likelihood_step like) (self_d ?s1) rest = scale_dict (1 / ?t1) ?M"
        by (simp add: fold_step_scale)
      have sumM: "sum_list (map snd (scale_dict (1 / ?t1) ?M)) = sum_list (map snd ?M) * (1 / ?t1)"
        by (rule sum_scale_dict)
      have IH: "sequential_Updates like ?s1 rest =
         (if sum_list (map snd ?M) * (1 / ?t1) = 0 then Inl ValueError
          else Inr (?s1\<lparr>self_d := scale_dict (1 / (sum_list (map snd ?M) * (1 / ?t1)))
                                    (scale_dict (1 / ?t1) ?M)\<rparr>))"
        using Cons.IH [OF rne d1 l1 nn lk] unfolding fold sumM .
      have z: "(sum_list (map snd ?M) * (1 / ?t1) = 0) = (sum_list (map snd ?M) = 0)"
        using False by simp
      have c: "1 / ?t1 * (1 / (sum_list (map snd ?M) * (1 / ?t1))) = 1 / sum_list (map snd ?M)"
        if "sum_list (map snd ?M) \<noteq> 0"
        using False that by (simp add: field_simps)
      show ?thesis
        using upd IH z c by (simp add: scale_scale)
    qed
  qed
qed


lemma scale_dict_one: "scale_dict 1 dct = (dct :: ('h, 'w::monoid_mult) pydict)"
  by (induction dct) (auto simp: scale_dict_def)

text \<open>
  C7, as the code has it, for exact numbers: weights and likelihoods in an ordered field, as
  Python's \<^verbatim>\<open>fractions.Fraction\<close> is. For a suite with non-negative weights and a likelihood
  that is non-negative on its hypotheses, and a dataset that is not empty (or a suite that is
  already normalized and not under a log transform), the sequential \<^verbatim>\<open>Update\<close> calls and the
  single \<^verbatim>\<open>UpdateSet\<close> call end the same way: either both raise the same exception, or both
  leave exactly the same suite. On floats the two paths round at different places, and they do
  not even agree on whether they raise: \<open>UpdateSet_underflow\<close> below.
\<close>

theorem C7_UpdateSet_sequential:
  fixes self :: "('h, 'w::linordered_field) DictWrapper"
  assumes "dataset \<noteq> [] \<or> (Total self = 1 \<and> \<not> self_log self)"
    and "distinct (map fst (self_d self))"
    and "\<forall>w\<in>snd ` set (self_d self). 0 \<le> w"
    and "\<forall>data\<in>set dataset. \<forall>h\<in>fst ` set (self_d self). 0 \<le> Likelihood data h"
  shows "sequential_Updates Likelihood self dataset =
           (case UpdateSet Likelihood self dataset of Inl e \<Rightarrow> Inl e | Inr (c, s) \<Rightarrow> Inr s)"
proof (cases "dataset = []")
  case True
  with assms(1) have t: "sum_list (map snd (self_d self)) = 1" and l: "\<not> self_log self"
    by (simp_all add: Total_sum_list)
  show ?thesis
    using True t l by (simp add: UpdateSet_eq [OF assms(2)] scale_dict_one)
next
  case ne: False
  then obtain data rest where ds: "dataset = data # rest" by (cases dataset) auto
  show ?thesis
  proof (cases "self_log self")
    case True
    then show ?thesis
      by (simp add: ds UpdateSet_eq [OF assms(2)] Update_eq [OF assms(2)])
  next
    case False
    show ?thesis
      using False
      by (simp add: sequential_Updates_eq [OF ne assms(2) False assms(3,4)] UpdateSet_eq [OF assms(2)])
  qed
qed

text \<open>
  C7 as claimed fails on the empty dataset: \<^verbatim>\<open>UpdateSet([])\<close> still normalizes, so the suite
  \<open>{H1: 1, H2: 1}\<close> becomes \<open>{H1: 1/2, H2: 1/2}\<close>, while no \<^verbatim>\<open>Update\<close> call at all leaves it as
  it was.
\<close>

theorem C7_counterexample:
  "UpdateSet example_Likelihood
     \<lparr>self_class = Suite_class, self_label = DEFAULT_LABEL,
      self_d = [(''H1'', 1), (''H2'', 1)], self_log = False\<rparr> []
   = Inr (2, \<lparr>self_class = Suite_class, self_label = DEFAULT_LABEL,
              self_d = [(''H1'', 1 / 2), (''H2'', 1 / 2)], self_log = False\<rparr>)
   \<and> sequential_Updates example_Likelihood
     \<lparr>self_class = Suite_class, self_label = DEFAULT_LABEL,
      self_d = [(''H1'', 1), (''H2'', 1)], self_log = False\<rparr> []
   = Inr \<lparr>self_class = Suite_class, self_label = DEFAULT_LABEL,
          self_d = [(''H1'', 1), (''H2'', 1)], self_log = False\<rparr>"
  by (simp add: UpdateSet_def Normalize_def Total_def dict_getitem_def Let_def)

theorem C7_UpdateSet_sequential_witness:
  "[0, 1 :: nat] \<noteq> []
   \<and> distinct (map fst [(''H1'', 1 / 2 :: rat), (''H2'', 1 / 2)])
   \<and> UpdateSet example_Likelihood
        \<lparr>self_class = Suite_class, self_label = DEFAULT_LABEL,
         self_d = [(''H1'', 1 / 2), (''H2'', 1 / 2)], self_log = False\<rparr> [0, 1]
      = Inr (5 / 2, \<lparr>self_class = Suite_class, self_label = DEFAULT_LABEL,
                     self_d = [(''H1'', 4 / 5), (''H2'', 1 / 5)], self_log = False\<rparr>)
   \<and> sequential_Updates example_Likelihood
        \<lparr>self_class = Suite_class, self_label = DEFAULT_LABEL,
         self_d = [(''H1'', 1 / 2), (''H2'', 1 / 2)], self_log = False\<rparr> [0, 1]
      = Inr \<lparr>self_class = Suite_class, self_label = DEFAULT_LABEL,
             self_d = [(''H1'', 4 / 5), (''H2'', 1 / 5)], self_log = False\<rparr>"
proof -
  let ?s = "\<lparr>self_class = Suite_class, self_label = DEFAULT_LABEL,
             self_d = [(''H1'', 1 / 2 :: rat), (''H2'', 1 / 2)], self_log = False\<rparr>"
  have h1: "[0, 1 :: nat] \<noteq> [] \<or> (Total ?s = 1 \<and> \<not> self_log ?s)" by simp
  have h2: "distinct (map fst (self_d ?s))" by simp
  have h3: "\<forall>w\<in>snd ` set (self_d ?s). 0 \<le> w" by simp
  have h4: "\<forall>data\<in>set [0, 1 :: nat]. \<forall>h\<in>fst ` set (self_d ?s). 0 \<le> example_Likelihood data h"
    by (simp add: example_Likelihood_def)
  have u: "UpdateSet example_Likelihood ?s [0, 1]
           = Inr (5 / 2, \<lparr>self_class = Suite_class, self_label = DEFAULT_LABEL,
                     self_d = [(''H1'', 4 / 5), (''H2'', 1 / 5)], self_log = False\<rparr>)"
    by (simp add: UpdateSet_def Normalize_def Total_def dict_getitem_def Let_def Values_def
        Mult_def dict_get_def example_Likelihood_def)
  from C7_UpdateSet_sequential [OF h1 h2 h3 h4] u show ?thesis by simp
qed

text \<open>
  On Python floats the two paths part. With the suite \<open>{H1: 0.5, H2: 0.5}\<close>, a likelihood of
  \<open>2^-600\<close> for every hypothesis and two observations, \<^verbatim>\<open>UpdateSet\<close> multiplies each weight
  twice before it normalizes: \<open>0.5 * 2^-600 * 2^-600 = 2^-1201\<close> underflows to \<open>0.0\<close>, the total
  is \<open>0.0\<close>, and \<^verbatim>\<open>Normalize\<close> raises \<^verbatim>\<open>ValueError\<close>. The two \<^verbatim>\<open>Update\<close> calls normalize in
  between, every value they compute is a binary64 number, and they return \<open>{H1: 0.5, H2: 0.5}\<close>.
\<close>

lemma float64_times: "F64 (Fin a) * F64 (Fin b) = F64 (round_double (a * b))"
  by (simp add: times_float64_def)

lemma float64_plus: "F64 (Fin a) + F64 (Fin b) = F64 (round_double (a + b))"
  by (simp add: plus_float64_def)

lemma float64_divide: "b \<noteq> 0 \<Longrightarrow> F64 (Fin a) / F64 (Fin b) = F64 (round_double (a / b))"
  by (simp add: divide_float64_def)

lemma UpdateSet_single: "UpdateSet Likelihood self [data] = Update Likelihood self data"
  by (simp add: UpdateSet_def Update_def)

lemma UpdateSet_underflow:
  "UpdateSet (\<lambda>data hypo. F64 (Fin (1 / 2 ^ 600)))
     \<lparr>self_class = Suite_class, self_label = DEFAULT_LABEL,
      self_d = [(''H1'', F64 (Fin (1 / 2))), (''H2'', F64 (Fin (1 / 2)))], self_log = False\<rparr>
     [0 :: nat, 1]
   = Inl ValueError
   \<and> sequential_Updates (\<lambda>data hypo. F64 (Fin (1 / 2 ^ 600)))
     \<lparr>self_class = Suite_class, self_label = DEFAULT_LABEL,
      self_d = [(''H1'', F64 (Fin (1 / 2))), (''H2'', F64 (Fin (1 / 2)))], self_log = False\<rparr>
     [0 :: nat, 1]
   = Inr \<lparr>self_class = Suite_class, self_label = DEFAULT_LABEL,
          self_d = [(''H1'', F64 (Fin (1 / 2))), (''H2'', F64 (Fin (1 / 2)))], self_log = False\<rparr>"
proof -
  have r0: "round_double 0 = Fin 0" by (simp add: round_double_def)
  have r601: "round_double (1 / 2 ^ 601) = Fin (1 / 2 ^ 601)"
    by (rule round_double_representable [of _ 1 "- 601"]) (simp_all add: pow2_def)
  have r1201: "round_double (1 / 2 ^ 1201) = Fin 0"
    by (rule round_double_underflow) simp
  have r600: "round_double (1 / 2 ^ 600) = Fin (1 / 2 ^ 600)"
    by (rule round_double_representable [of _ 1 "- 600"]) (simp_all add: pow2_def)
  have p600: "round_double (2 ^ 600) = Fin (2 ^ 600)"
    by (rule round_double_representable [of _ 1 600]) (simp_all add: pow2_def)
  have rh: "round_double (1 / 2) = Fin (1 / 2)"
    by (rule round_double_representable [of _ 1 "- 1"]) (simp_all add: pow2_def)
  note rs = r0 r601 [simplified] r1201 [simplified] r600 [simplified] p600 [simplified] rh
  show ?thesis
    by (simp add: UpdateSet_def Update_def Normalize_def Total_def Values_def Mult_def dict_get_def
        dict_getitem_def Let_def float64_times float64_plus float64_divide zero_float64_def
        one_float64_def rs)
qed

section \<open>\<^verbatim>\<open>Suite.MakeOdds\<close> and \<^verbatim>\<open>Suite.MakeProbs\<close>\<close>

lemma update_append_fresh:
  "k \<notin> fst ` set pre \<Longrightarrow> AList.update k v (pre @ (k, p) # rest) = pre @ (k, v) # rest"
  by (induction pre) auto







text \<open>
  A hypothesis of probability zero is not dropped in passing: the \<^verbatim>\<open>Remove\<close> inside the walk
  over the items ends \<^verbatim>\<open>MakeOdds\<close> with \<^verbatim>\<open>RuntimeError\<close>.
\<close>

lemma MakeOdds_zero_probability:
  "MakeOdds \<lparr>self_class = Suite_class, self_label = DEFAULT_LABEL,
             self_d = [(''H1'', Fin 0), (''H2'', Fin (1 / 2))], self_log = False\<rparr>
   = Inl RuntimeError"
  by (simp add: MakeOdds_def Items_def Remove_def dict_del_def)


section \<open>The empty \<^verbatim>\<open>Cdf\<close>\<close>

text \<open>
  C10. A \<^verbatim>\<open>Cdf\<close> built from an empty collection has empty \<open>xs\<close> and \<open>ps\<close>. On every \<^verbatim>\<open>Cdf\<close> with
  empty arrays, \<^verbatim>\<open>Prob(x)\<close> raises \<^verbatim>\<open>IndexError\<close> for every \<open>x\<close> (at \<^verbatim>\<open>self.xs[0]\<close>), \<^verbatim>\<open>Value(p)\<close>
  raises \<^verbatim>\<open>IndexError\<close> for every \<open>p\<close> in \<open>[0, 1]\<close> (at \<^verbatim>\<open>self.xs[index]\<close>), and for every other \<open>p\<close>
  it raises too, \<^verbatim>\<open>IndexError\<close> or \<^verbatim>\<open>ValueError\<close>: neither method ever returns a value.
\<close>

theorem C10_empty_Cdf:
  "(\<exists>c. Cdf_init (CdfOfSeq ([] :: 'k::linorder list)) label = Inr c \<and> cdf_xs c = [] \<and> cdf_ps c = [])
   \<and> (\<forall>c :: 'k Cdf. cdf_xs c = [] \<and> cdf_ps c = [] \<longrightarrow>
         (\<forall>x. Cdf_Prob c x = Inl IndexError)
       \<and> (\<forall>q. 0 \<le> q \<and> q \<le> 1 \<longrightarrow> Cdf_Value c (Fin q) = Inl IndexError)
       \<and> (\<forall>p. Cdf_Value c p = Inl IndexError \<or> Cdf_Value c p = Inl ValueError))"
proof -
  have 1: "\<exists>c. Cdf_init (CdfOfSeq ([] :: 'k list)) label = Inr c \<and> cdf_xs c = [] \<and> cdf_ps c = []"
    by (simp add: Cdf_init_def Cdf_from_wrapper_def init_empty len_def)
  have 2: "Cdf_Prob c x = Inl IndexError" if "cdf_xs c = []" for c :: "'k Cdf" and x
    using that by (simp add: Cdf_Prob_def py_index_def)
  have 3: "Cdf_Value c p = Inl IndexError \<or> Cdf_Value c p = Inl ValueError"
    if "cdf_xs c = []" for c :: "'k Cdf" and p
    using that by (simp add: Cdf_Value_def py_index_def)
  have 4: "Cdf_Value c (Fin q) = Inl IndexError"
    if "cdf_xs c = []" "0 \<le> q \<and> q \<le> 1" for c :: "'k Cdf" and q
    using that by (simp add: Cdf_Value_def py_index_def)
  from 1 2 3 4 show ?thesis by blast
qed


theorem C10_empty_Cdf_witness:
  "cdf_xs \<lparr>cdf_xs = [] :: int list, cdf_ps = [], cdf_label = DEFAULT_LABEL\<rparr> = []
   \<and> cdf_ps \<lparr>cdf_xs = [] :: int list, cdf_ps = [], cdf_label = DEFAULT_LABEL\<rparr> = []
   \<and> (0::rat) \<le> 1 / 2 \<and> (1 / 2 :: rat) \<le> 1
   \<and> Cdf_Prob \<lparr>cdf_xs = [] :: int list, cdf_ps = [], cdf_label = DEFAULT_LABEL\<rparr> 5 = Inl IndexError
   \<and> Cdf_Value \<lparr>cdf_xs = [] :: int list, cdf_ps = [], cdf_label = DEFAULT_LABEL\<rparr> (Fin (1 / 2))
       = Inl IndexError"
proof -
  let ?c = "\<lparr>cdf_xs = [] :: int list, cdf_ps = [], cdf_label = DEFAULT_LABEL\<rparr>"
  have e: "cdf_xs ?c = [] \<and> cdf_ps ?c = []" by simp
  have r: "(0::rat) \<le> 1 / 2 \<and> (1 / 2 :: rat) \<le> 1" by simp
  from C10_empty_Cdf [where 'k = int, of None, THEN conjunct2, THEN spec, of ?c, THEN mp, OF e]
  have p: "\<forall>x. Cdf_Prob ?c x = Inl IndexError"
    and v: "\<forall>q. 0 \<le> q \<and> q \<le> 1 \<longrightarrow> Cdf_Value ?c (Fin q) = Inl IndexError"
    by blast+
  from p have "Cdf_Prob ?c 5 = Inl IndexError" by (rule spec)
  moreover from v r have "Cdf_Value ?c (Fin (1 / 2)) = Inl IndexError" by blast
  ultimately show ?thesis using e r by simp
qed

section \<open>The invariants of a constructed \<^verbatim>\<open>Cdf\<close>\<close>

lemma cumsum_from_Fin: "cumsum_from (Fin a) (map Fin qs) = map Fin (partial_sums_from a qs)"
  by (induction qs arbitrary: a) simp_all

lemma np_cumsum_Fin: "np_cumsum (map Fin qs) = map Fin (partial_sums_from 0 qs)"
  by (cases qs) (simp_all add: np_cumsum_def cumsum_from_Fin)

lemma length_partial_sums: "length (partial_sums_from a qs) = length qs"
  by (induction qs arbitrary: a) simp_all

lemma last_partial_sums: "qs \<noteq> [] \<Longrightarrow> last (partial_sums_from a qs) = a + sum_list qs"
proof (induction qs arbitrary: a)
  case Nil then show ?case by simp
next
  case (Cons q qs)
  show ?case
  proof (cases "qs = []")
    case True then show ?thesis by simp
  next
    case False
    have "partial_sums_from (a + q) qs \<noteq> []" using False by (cases qs) simp_all
    then show ?thesis using Cons.IH [OF False, of "a + q"] by (simp add: add.assoc)
  qed
qed

lemma py_index_last: "a \<noteq> [] \<Longrightarrow> py_index a (- 1) = Inr (last a)"
  by (simp add: py_index_def Let_def last_conv_nth nat_diff_distrib) (simp add: of_nat_diff nat_diff_distrib')

lemma sorted_partial_sums:
  "\<forall>q\<in>set qs. 0 \<le> q \<Longrightarrow> sorted (partial_sums_from a qs) \<and> (\<forall>p\<in>set (partial_sums_from a qs). a \<le> p)"
proof (induction qs arbitrary: a)
  case Nil then show ?case by simp
next
  case (Cons q qs)
  have q: "0 \<le> q" and rest: "\<forall>q\<in>set qs. 0 \<le> q" using Cons.prems by simp_all
  from Cons.IH [OF rest, of "a + q"] q show ?case by fastforce
qed


lemma sum_filter_insort:
  "sum_list (map f (filter P (insort_key k x xs)))
   = (if P x then f x else 0) + (sum_list (map f (filter P xs)) :: rat)"
  by (induction xs) auto

lemma sum_filter_sort:
  "sum_list (map f (filter P (sort_key k xs))) = (sum_list (map f (filter P xs)) :: rat)"
  by (induction xs) (auto simp: sum_filter_insort)


lemma sum_sort: "sum_list (map snd (sort dct)) = (sum_list (map snd dct) :: rat)"
  using sum_filter_sort [of snd "\<lambda>_. True" "\<lambda>x. x" dct] by simp



lemma sorted_items_nonempty:
  "dct \<noteq> [] \<Longrightarrow> map snd (sort dct) \<noteq> [] \<and> partial_sums_from a (map snd (sort dct)) \<noteq> []"
proof -
  assume ne: "dct \<noteq> []"
  have 1: "map snd (sort dct) \<noteq> []"
  proof
    assume "map snd (sort dct) = []"
    then have "length (map snd (sort dct)) = 0" by (simp only: list.size)
    then have "length dct = 0" by (simp only: length_map length_sort)
    with ne show False by simp
  qed
  have 2: "partial_sums_from a (map snd (sort dct)) \<noteq> []"
  proof
    assume "partial_sums_from a (map snd (sort dct)) = []"
    then have "length (partial_sums_from a (map snd (sort dct))) = 0" by (simp only: list.size)
    then have "length dct = 0" by (simp only: length_partial_sums length_map length_sort)
    with ne show False by simp
  qed
  from 1 2 show ?thesis by simp
qed

lemma Cdf_from_wrapper_eq:
  fixes dw :: "('k::linorder, rat) DictWrapper"
  assumes "distinct (map fst (self_d dw))" "self_d dw \<noteq> []" "sum_list (map snd (self_d dw)) \<noteq> 0"
  shows "Cdf_from_wrapper dw lbl =
     Inr \<lparr>cdf_xs = map fst (sort (self_d dw)),
          cdf_ps = map (\<lambda>p. Fin (p / sum_list (map snd (self_d dw))))
                     (partial_sums_from 0 (map snd (sort (self_d dw)))),
          cdf_label = lbl\<rparr>"
proof -
  let ?items = "sort (self_d dw)"
  let ?t = "sum_list (map snd (self_d dw))"
  let ?ps = "partial_sums_from 0 (map snd ?items)"
  have ne: "map snd ?items \<noteq> []" and ne1: "?ps \<noteq> []"
    using sorted_items_nonempty [OF assms(2), of 0] by simp_all
  have ne2: "map Fin ?ps \<noteq> []" using ne1 by simp
  have l: "last (map Fin ?ps) = Fin ?t"
    using ne ne2 by (simp add: last_map last_partial_sums sum_sort)
  have idx: "py_index (map Fin ?ps) (- 1) = Inr (Fin ?t)"
    unfolding py_index_last [OF ne2] l ..
  have dv: "map (\<lambda>p. np_divide p (Fin ?t)) (map Fin ?ps) = map (\<lambda>p. Fin (p / ?t)) ?ps"
    using assms(3) by (simp add: np_divide_def)
  have nz: "(len dw = 0) = False" using assms(2) by (simp add: len_def)
  show ?thesis
    by (simp only: Cdf_from_wrapper_def Let_def Items_def nz if_False np_cumsum_Fin idx sum.case dv)
qed





lemma init_Hist_seq:
  "DictWrapper_init Hist_class (ObjSeq seq) None =
     Inr \<lparr>self_class = Hist_class, self_label = DEFAULT_LABEL,
          self_d = (Counter seq :: ('k, 'w::field) pydict), self_log = False\<rparr>"
  by (simp add: DictWrapper_init_def dict_update_empty Counter_props(1) Let_def)









section \<open>\<^verbatim>\<open>HypothesisTest.PValue\<close>\<close>

lemma Cdf_init_seq_total:
  fixes seq :: "'k::linorder list"
  shows "\<exists>c. Cdf_init (CdfOfSeq seq) label = Inr c"
proof (cases "seq = []")
  case True
  then show ?thesis by (simp add: Cdf_init_def Cdf_from_wrapper_def init_empty len_def)
next
  case False
  let ?d = "Counter seq :: ('k, rat) pydict"
  let ?h = "\<lparr>self_class = Hist_class, self_label = DEFAULT_LABEL, self_d = ?d, self_log = False\<rparr>"
  have d: "distinct (map fst (self_d ?h))" by (simp add: Counter_props(1))
  have n: "self_d ?h \<noteq> []" using Counter_props(3) [of seq, where 'w = rat] False by auto
  have t: "sum_list (map snd ?d) = of_nat (length seq)" by (simp add: Counter_props(2))
  have z: "sum_list (map snd (self_d ?h)) \<noteq> 0" using False by (simp add: t)
  show ?thesis
    using Cdf_from_wrapper_eq [OF d n z, of "Cdf_init_label (CdfOfSeq seq) label"]
    by (simp add: Cdf_init_def init_Hist_seq)
qed

lemma PValue_loop_length:
  "PValue_loop m data n model rng = Inr (stats, model', rng') \<Longrightarrow> length stats = n"
proof (induction n arbitrary: model rng stats model' rng')
  case 0
  then show ?case by simp
next
  case (Suc n)
  then show ?case
    by (auto split: sum.splits prod.splits)
qed

lemma PValue_loop_total:
  assumes "\<forall>model rng. \<exists>r. RunModel m data model rng = Inr r"
    and "\<forall>model sim. \<exists>s. TestStatistic m model sim = Inr s"
  shows "\<exists>r. PValue_loop m data n model rng = Inr r"
proof (induction n arbitrary: model rng)
  case 0
  show ?case by simp
next
  case (Suc n)
  from assms(1) obtain r0 where r0: "RunModel m data model rng = Inr r0" by blast
  obtain sim model' rng' where run: "r0 = (sim, model', rng')" by (cases r0)
  from assms(2) obtain stat where st: "TestStatistic m model' sim = Inr stat" by blast
  from Suc.IH [of model' rng'] obtain r where r: "PValue_loop m data n model' rng' = Inr r" by blast
  obtain stats model'' rng'' where "r = (stats, model'', rng'')" by (cases r)
  with r0 run st r show ?case by simp
qed

text \<open>
  The list that the comprehension of \<^verbatim>\<open>PValue\<close> builds is the list of the simulated
  statistics: its element of index \<open>k\<close> is \<^verbatim>\<open>TestStatistic\<close> of the dataset that \<^verbatim>\<open>RunModel\<close>
  returns in the state that the \<open>k\<close> simulations before it have left, and the loop ends in
  the state after all of them.
\<close>

lemma PValue_loop_stats:
  "PValue_loop m data n model rng = Inr (stats, model', rng') \<Longrightarrow>
   map Inr stats
     = map (\<lambda>k. simulated_statistic m data (simulation_start m data k model rng)) [0..<n]
   \<and> (model', rng') = simulation_start m data n model rng"
proof (induction n arbitrary: model rng stats model' rng')
  case 0
  then show ?case by simp
next
  case (Suc n)
  from Suc.prems obtain sim m1 r1 where run: "RunModel m data model rng = Inr (sim, m1, r1)"
    by (auto split: sum.splits prod.splits)
  from Suc.prems run obtain stat where st: "TestStatistic m m1 sim = Inr stat"
    by (auto split: sum.splits prod.splits)
  from Suc.prems run st obtain stats0 where
    rest: "PValue_loop m data n m1 r1 = Inr (stats0, model', rng')" and s: "stats = stat # stats0"
    by (auto split: sum.splits prod.splits)
  note IH = Suc.IH [OF rest]
  have first: "simulated_statistic m data (simulation_start m data 0 model rng) = Inr stat"
    by (simp add: simulated_statistic_def run st)
  have later: "simulation_start m data (Suc k) model rng = simulation_start m data k m1 r1" for k
    by (simp add: run)
  have "map (\<lambda>k. simulated_statistic m data (simulation_start m data k model rng)) [0..<Suc n]
        = simulated_statistic m data (simulation_start m data 0 model rng)
          # map (\<lambda>k. simulated_statistic m data (simulation_start m data (Suc k) model rng)) [0..<n]"
    by (simp only: upt_conv_Cons [of 0 "Suc n"] zero_less_Suc map_Suc_upt [symmetric] list.map map_map
        comp_def)
  also have "\<dots> = Inr stat # map Inr stats0"
    by (simp only: first later IH [THEN conjunct1])
  finally have "map Inr stats
      = map (\<lambda>k. simulated_statistic m data (simulation_start m data k model rng)) [0..<Suc n]"
    by (simp add: s)
  moreover have "(model', rng') = simulation_start m data (Suc n) model rng"
    using IH [THEN conjunct2] by (simp only: later)
  ultimately show ?case by simp
qed

text \<open>
  C3, as the code has it. For a test whose \<^verbatim>\<open>RunModel\<close> and \<^verbatim>\<open>TestStatistic\<close> return, and an
  iteration count \<open>iters \<ge> 1\<close>, \<^verbatim>\<open>PValue(iters)\<close> returns; it leaves \<^verbatim>\<open>self.actual\<close> as it was; it
  stores exactly \<open>iters\<close> values, and they are the simulated statistics: the value of index \<open>k\<close>
  is \<^verbatim>\<open>TestStatistic\<close> of the dataset of the simulation of index \<open>k\<close>, the simulations running
  one after the other on the model and the random generator, which are left in the state
  after the last one; and it returns the number of stored values that are at least the actual
  statistic, divided by \<open>iters\<close>. The actual statistic of a constructed test is the value
  \<^verbatim>\<open>TestStatistic(data)\<close> computed in the constructor, after \<^verbatim>\<open>MakeModel\<close>.
\<close>

theorem C3_PValue:
  fixes m :: "('data, 'model, 'rng, 's::linorder) test_methods"
  assumes "0 < iters"
    and "\<forall>model rng. \<exists>r. RunModel m (ht_data self) model rng = Inr r"
    and "\<forall>model sim. \<exists>s. TestStatistic m model sim = Inr s"
  shows "(\<exists>p self' rng' stats.
           PValue m self iters rng = Inr (p, self', rng')
         \<and> ht_actual self' = ht_actual self
         \<and> ht_test_stats self' = Some stats
         \<and> int (length stats) = iters
         \<and> map Inr stats
             = map (\<lambda>k. simulated_statistic m (ht_data self)
                          (simulation_start m (ht_data self) k (ht_model self) rng))
                 [0..<nat iters]
         \<and> (ht_model self', rng') = simulation_start m (ht_data self) (nat iters) (ht_model self) rng
         \<and> p = of_nat (length (filter (\<lambda>x. ht_actual self \<le> x) stats)) / of_int iters)
       \<and> (\<forall>self0. HypothesisTest_init m data = Inr self0 \<longrightarrow>
             (\<exists>model. MakeModel m data = Inr model
                      \<and> TestStatistic m model data = Inr (ht_actual self0))
             \<and> ht_test_stats self0 = None)"
proof -
  from PValue_loop_total [OF assms(2,3), of "nat iters" "ht_model self" rng]
  obtain r where r: "PValue_loop m (ht_data self) (nat iters) (ht_model self) rng = Inr r" by blast
  obtain stats model' rng' where r': "r = (stats, model', rng')" by (cases r)
  have len: "length stats = nat iters"
    using PValue_loop_length r unfolding r' by fast
  note sim = PValue_loop_stats [OF r [unfolded r']]
  from Cdf_init_seq_total [of stats None] obtain cdf where c: "Cdf_init (CdfOfSeq stats) None = Inr cdf"
    by blast
  let ?self' = "self\<lparr>ht_model := model', ht_test_stats := Some stats, ht_test_cdf := Some cdf\<rparr>"
  have pv: "PValue m self iters rng =
      Inr (of_nat (length (filter (\<lambda>x. ht_actual self \<le> x) stats)) / of_int iters, ?self', rng')"
    using assms(1) r r' c by (simp add: PValue_def Let_def)
  have a: "ht_actual ?self' = ht_actual self" by simp
  have t: "ht_test_stats ?self' = Some stats" by simp
  have l: "int (length stats) = iters" using len assms(1) by simp
  have e: "(ht_model ?self', rng') = simulation_start m (ht_data self) (nat iters) (ht_model self) rng"
    using sim [THEN conjunct2] by simp
  have 1: "\<exists>p self' rng' stats.
           PValue m self iters rng = Inr (p, self', rng')
         \<and> ht_actual self' = ht_actual self
         \<and> ht_test_stats self' = Some stats
         \<and> int (length stats) = iters
         \<and> map Inr stats
             = map (\<lambda>k. simulated_statistic m (ht_data self)
                          (simulation_start m (ht_data self) k (ht_model self) rng))
                 [0..<nat iters]
         \<and> (ht_model self', rng') = simulation_start m (ht_data self) (nat iters) (ht_model self) rng
         \<and> p = of_nat (length (filter (\<lambda>x. ht_actual self \<le> x) stats)) / of_int iters"
    apply (rule exI [of _ "of_nat (length (filter (\<lambda>x. ht_actual self \<le> x) stats)) / of_int iters"])
    apply (rule exI [of _ ?self'])
    apply (rule exI [of _ rng'])
    apply (rule exI [of _ stats])
    apply (intro conjI)
          apply (rule pv)
         apply (rule a)
        apply (rule t)
       apply (rule l)
      apply (rule sim [THEN conjunct1])
     apply (rule e)
    apply (rule refl)
    done
  have 2: "\<forall>self0. HypothesisTest_init m data = Inr self0 \<longrightarrow>
             (\<exists>model. MakeModel m data = Inr model
                      \<and> TestStatistic m model data = Inr (ht_actual self0))
             \<and> ht_test_stats self0 = None"
    by (auto simp: HypothesisTest_init_def split: sum.splits)
  from 1 2 show ?thesis by (rule conjI)
qed

lemma CoinTest_RunModel_total: "\<exists>r. RunModel (CoinTest choice) data model rng = Inr r"
  by (simp add: CoinTest_def CoinTest_RunModel_def init_Hist_seq Let_def split: prod.splits)

lemma CoinTest_TestStatistic_total: "\<exists>s. TestStatistic (CoinTest choice) model sim = Inr s"
  by (simp add: CoinTest_def CoinTest_TestStatistic_def split: prod.splits)

text \<open>
  One simulation of \<^verbatim>\<open>CoinTest((2, 1))\<close> with the counting generator: from the state \<open>0\<close> the
  three draws are \<open>H\<close>, \<open>T\<close>, \<open>H\<close>, from the state \<open>3\<close> they are \<open>T\<close>, \<open>H\<close>, \<open>T\<close>; both datasets
  have the statistic 1.
\<close>

lemma choices_3:
  "choices choice 3 rng =
     (case choice rng ''HT'' of (c1, r1) \<Rightarrow>
        case choice r1 ''HT'' of (c2, r2) \<Rightarrow>
          case choice r2 ''HT'' of (c3, r3) \<Rightarrow> ([c1, c2, c3], r3))"
  by (simp add: numeral_3_eq_3 split: prod.splits)

lemma counter_choice_HT: "counter_choice rng ''HT'' = (''HT'' ! (rng mod 2), rng + 1)"
  by (simp add: counter_choice_def numeral_2_eq_2)

lemma CoinTest_run_0:
  "RunModel (CoinTest counter_choice) (2, 1) () (0::nat) = Inr ((2, 1), (), 3)"
  by (simp add: CoinTest_def CoinTest_RunModel_def counter_choice_HT Let_def choices_3
      DictWrapper_init_def Counter_def dict_update_def dict_get_def getitem_def len_def)

lemma CoinTest_run_3:
  "RunModel (CoinTest counter_choice) (2, 1) () (3::nat) = Inr ((1, 2), (), 6)"
  by (simp add: CoinTest_def CoinTest_RunModel_def counter_choice_HT Let_def choices_3
      DictWrapper_init_def Counter_def dict_update_def dict_get_def getitem_def len_def)

lemma CoinTest_stat:
  "TestStatistic (CoinTest counter_choice) () (a, b) = Inr \<bar>a - b\<bar>"
  by (simp add: CoinTest_def CoinTest_TestStatistic_def)

text \<open>
  C3 as claimed fails at \<open>iters = 0\<close>: no statistic is simulated and \<^verbatim>\<open>count / iters\<close> is \<open>0 / 0\<close>,
  so \<^verbatim>\<open>PValue(0)\<close> raises \<^verbatim>\<open>ZeroDivisionError\<close> and returns no fraction.
\<close>

theorem C3_counterexample:
  "PValue (CoinTest counter_choice)
     \<lparr>ht_data = (55, 45), ht_model = (), ht_actual = 10, ht_test_stats = None, ht_test_cdf = None\<rparr>
     0 (0::nat)
   = Inl ZeroDivisionError"
  by (simp add: PValue_def Cdf_init_def Cdf_from_wrapper_def init_empty len_def)


theorem C3_PValue_witness:
  "(0::int) < 2
   \<and> HypothesisTest_init (CoinTest counter_choice) (2, 1)
       = Inr \<lparr>ht_data = (2, 1), ht_model = (), ht_actual = 1, ht_test_stats = None, ht_test_cdf = None\<rparr>
   \<and> (\<exists>p self' rng'.
         PValue (CoinTest counter_choice)
           \<lparr>ht_data = (2, 1), ht_model = (), ht_actual = 1, ht_test_stats = None, ht_test_cdf = None\<rparr>
           2 (0::nat) = Inr (p, self', rng')
       \<and> ht_actual self' = 1
       \<and> ht_test_stats self' = Some [1, 1]
       \<and> rng' = 6
       \<and> p = 1)"
proof -
  let ?m = "CoinTest counter_choice :: (rat \<times> rat, unit, nat, rat) test_methods"
  let ?self = "\<lparr>ht_data = (2::rat, 1::rat), ht_model = (), ht_actual = 1::rat,
                ht_test_stats = None, ht_test_cdf = None\<rparr>"
  have h1: "(0::int) < 2" by simp
  have h2: "\<forall>model rng. \<exists>r. RunModel ?m (ht_data ?self) model rng = Inr r"
    by (intro allI CoinTest_RunModel_total)
  have h3: "\<forall>model sim. \<exists>s. TestStatistic ?m model sim = Inr s"
    by (intro allI CoinTest_TestStatistic_total)
  have i: "HypothesisTest_init ?m (2, 1) = Inr ?self"
    by (simp add: HypothesisTest_init_def CoinTest_def CoinTest_TestStatistic_def)
  have u: "[0..<nat 2] = [0, Suc 0]" by (simp add: upt_conv_Cons)
  from C3_PValue [OF h1 h2 h3, of 0 "(2, 1)", THEN conjunct1]
  obtain p self' rng' stats where
    pv: "PValue ?m ?self 2 0 = Inr (p, self', rng')"
    and a: "ht_actual self' = ht_actual ?self"
    and t: "ht_test_stats self' = Some stats"
    and st: "map Inr stats
             = map (\<lambda>k. simulated_statistic ?m (ht_data ?self)
                          (simulation_start ?m (ht_data ?self) k (ht_model ?self) 0))
                 [0..<nat 2]"
    and e: "(ht_model self', rng') = simulation_start ?m (ht_data ?self) (nat 2) (ht_model ?self) 0"
    and p: "p = of_nat (length (filter (\<lambda>x. ht_actual ?self \<le> x) stats)) / of_int 2"
    by blast
  have "map Inr stats = [Inr 1 :: error + rat, Inr 1]"
    unfolding st u by (simp add: simulated_statistic_def CoinTest_run_0 CoinTest_run_3 CoinTest_stat)
  then have stats: "stats = [1, 1]" by auto
  have n2: "nat 2 = Suc (Suc 0)" by simp
  have r: "rng' = 6" using e unfolding n2 by (simp add: CoinTest_run_0 CoinTest_run_3)
  have p1: "p = 1" unfolding p stats by simp
  from pv a t stats r p1 have
    "\<exists>p self' rng'. PValue ?m ?self 2 0 = Inr (p, self', rng')
       \<and> ht_actual self' = 1 \<and> ht_test_stats self' = Some [1, 1] \<and> rng' = 6 \<and> p = 1"
    by simp
  with h1 i show ?thesis by blast
qed

section \<open>The Kaplan-Meier estimate\<close>

lemma keys_cond_fold:
  "fst ` set (foldl (\<lambda>r (e, c). if P e c then AList.update e (v e c) r else r) r items)
   = fst ` set r \<union> {e. \<exists>c. (e, c) \<in> set items \<and> P e c}"
proof (induction items arbitrary: r)
  case Nil
  show ?case by simp
next
  case (Cons a items)
  obtain e c where a: "a = (e, c)" by (cases a)
  show ?case
    by (auto simp: a Cons.IH dom_update)
qed

lemma distinct_cond_fold:
  "distinct (map fst r) \<Longrightarrow>
   distinct (map fst (foldl (\<lambda>r (e, c). if P e c then AList.update e (v e c) r else r) r items))"
proof (induction items arbitrary: r)
  case Nil
  then show ?case by simp
next
  case (Cons a items)
  obtain e c where a: "a = (e, c)" by (cases a)
  have "distinct (map fst (if P e c then AList.update e (v e c) r else r))"
    using Cons.prems by (simp add: distinct_update)
  from Cons.IH [OF this] show ?case by (simp add: a)
qed

lemma Counter_positive:
  assumes "(k, c) \<in> set (Counter seq :: ('k, int) pydict)"
  shows "0 < c \<and> c = int (count_list seq k)"
proof -
  have "map_of (Counter seq :: ('k, int) pydict) k = Some c"
    by (rule map_of_is_SomeI [OF Counter_props(1) assms])
  then have c: "c = dict_get (Counter seq :: ('k, int) pydict) k 0" by (simp add: dict_get_def)
  have "k \<in> fst ` set (Counter seq :: ('k, int) pydict)" using assms by force
  then have "k \<in> set seq" by (simp add: Counter_props(3))
  then have "count_list seq k \<noteq> 0" by (simp add: count_list_0_iff)
  with c show ?thesis by (simp add: Counter_props(4))
qed

lemma Counter_or_keys:
  fixes xs ys :: "'k list"
  shows "fst ` set (Counter_or (Counter xs) (Counter ys)) = set xs \<union> set ys"
    and "distinct (map fst (Counter_or (Counter xs) (Counter ys)))"
proof -
  let ?c1 = "Counter xs :: ('k, int) pydict" and ?c2 = "Counter ys :: ('k, int) pydict"
  let ?P1 = "\<lambda>e c. 0 < (if c < dict_get ?c2 e 0 then dict_get ?c2 e 0 else c)"
  let ?v1 = "\<lambda>e c. (if c < dict_get ?c2 e 0 then dict_get ?c2 e 0 else c)"
  let ?P2 = "\<lambda>e c. e \<notin> fst ` set ?c1 \<and> 0 < c"
  let ?v2 = "\<lambda>e (c::int). c"
  let ?r1 = "foldl (\<lambda>r (e, c). if ?P1 e c then AList.update e (?v1 e c) r else r) [] ?c1"
  have unf: "Counter_or ?c1 ?c2
       = foldl (\<lambda>r (e, c). if ?P2 e c then AList.update e (?v2 e c) r else r) ?r1 ?c2"
    by (simp add: Counter_or_def Let_def)
  have k1: "fst ` set ?r1 = fst ` set ?c1"
  proof -
    have pos1: "?P1 e c" if "(e, c) \<in> set ?c1" for e c
      using Counter_positive [OF that] by auto
    have "{e. \<exists>c. (e, c) \<in> set ?c1 \<and> ?P1 e c} = fst ` set ?c1"
    proof (intro set_eqI iffI)
      fix e assume "e \<in> {e. \<exists>c. (e, c) \<in> set ?c1 \<and> ?P1 e c}"
      then obtain c where "(e, c) \<in> set ?c1" by blast
      then show "e \<in> fst ` set ?c1" by force
    next
      fix e assume "e \<in> fst ` set ?c1"
      then obtain c where c: "(e, c) \<in> set ?c1" by auto
      with pos1 [OF c] show "e \<in> {e. \<exists>c. (e, c) \<in> set ?c1 \<and> ?P1 e c}" by blast
    qed
    then show ?thesis by (simp only: keys_cond_fold) simp
  qed
  have k2: "{e. \<exists>c. (e, c) \<in> set ?c2 \<and> ?P2 e c} = fst ` set ?c2 - fst ` set ?c1"
  proof (intro set_eqI iffI)
    fix e assume "e \<in> {e. \<exists>c. (e, c) \<in> set ?c2 \<and> ?P2 e c}"
    then obtain c where "(e, c) \<in> set ?c2" "e \<notin> fst ` set ?c1" by blast
    then show "e \<in> fst ` set ?c2 - fst ` set ?c1" by force
  next
    fix e assume e: "e \<in> fst ` set ?c2 - fst ` set ?c1"
    then obtain c where c: "(e, c) \<in> set ?c2" by auto
    from Counter_positive [OF c] have "0 < c" by simp
    with c e show "e \<in> {e. \<exists>c. (e, c) \<in> set ?c2 \<and> ?P2 e c}" by blast
  qed
  have "fst ` set (Counter_or ?c1 ?c2) = fst ` set ?r1 \<union> {e. \<exists>c. (e, c) \<in> set ?c2 \<and> ?P2 e c}"
    unfolding unf by (rule keys_cond_fold)
  also have "\<dots> = fst ` set ?c1 \<union> (fst ` set ?c2 - fst ` set ?c1)"
    by (simp only: k1 k2)
  also have "\<dots> = fst ` set ?c1 \<union> fst ` set ?c2" by blast
  also have "\<dots> = set xs \<union> set ys" by (simp only: Counter_props(3))
  finally show "fst ` set (Counter_or ?c1 ?c2) = set xs \<union> set ys" .
  have "distinct (map fst ?r1)" by (rule distinct_cond_fold) simp
  then show "distinct (map fst (Counter_or ?c1 ?c2))"
    unfolding unf by (rule distinct_cond_fold)
qed

lemma hazard_times:
  "sort (map fst (Counter_or (Counter xs) (Counter ys) :: (rat, int) pydict))
   = sorted_list_of_set (set xs \<union> set ys)"
proof (rule sorted_distinct_set_unique)
  show "sorted (sort (map fst (Counter_or (Counter xs) (Counter ys) :: (rat, int) pydict)))" by simp
  show "distinct (sort (map fst (Counter_or (Counter xs) (Counter ys) :: (rat, int) pydict)))"
    by (simp add: Counter_or_keys(2))
  show "sorted (sorted_list_of_set (set xs \<union> set ys))" by simp
  show "distinct (sorted_list_of_set (set xs \<union> set ys))" by simp
  have "set (map fst (Counter_or (Counter xs) (Counter ys) :: (rat, int) pydict)) = set xs \<union> set ys"
    using Counter_or_keys(1) [of xs ys] by simp
  then show "set (sort (map fst (Counter_or (Counter xs) (Counter ys) :: (rat, int) pydict)))
        = set (sorted_list_of_set (set xs \<union> set ys))"
    by simp
qed


lemma filter_ge_split:
  "length (filter (\<lambda>u. t \<le> u) obs) = length (filter (\<lambda>u. t < u) obs) + count_list obs (t::'a::linorder)"
  by (induction obs) auto

lemma count_list_append': "count_list (xs @ ys) x = count_list xs x + count_list ys x"
  by (induction xs) auto

lemma hazard_loop_eq:
  assumes "sorted_wrt (<) ts"
    and "set ts \<subseteq> set (cs @ os)"
    and "\<forall>u\<in>set (cs @ os). u \<in> set ts \<or> (\<forall>t\<in>set ts. u < t)"
    and "distinct (map fst pre @ ts)"
    and "ts \<noteq> [] \<longrightarrow> at_risk = int (length (filter (\<lambda>u. hd ts \<le> u) (cs @ os)))"
  shows "hazard_loop ts (Counter cs) (Counter os) at_risk (pre @ map (\<lambda>t. (t, NaN)) ts)
         = Inr (pre @ map (\<lambda>t. (t, Fin (of_nat (count_list cs t)
                                          / of_nat (length (filter (\<lambda>u. t \<le> u) (cs @ os)))))) ts)"
  using assms
proof (induction ts arbitrary: pre at_risk)
  case Nil
  show ?case by simp
next
  case (Cons t rest)
  let ?obs = "cs @ os"
  let ?n = "length (filter (\<lambda>u. t \<le> u) ?obs)"
  let ?v = "Fin (of_nat (count_list cs t) / of_nat ?n)"
  have ar: "at_risk = int ?n" using Cons.prems(5) by simp
  have tin: "t \<in> set ?obs" using Cons.prems(2) by simp
  then have "t \<in> set (filter (\<lambda>u. t \<le> u) ?obs)" by simp
  then have npos: "?n \<noteq> 0" by (metis length_0_conv empty_iff list.set(1))
  have ended: "dict_get (Counter cs) t 0 = int (count_list cs t)" by (simp add: Counter_props(4))
  have censored: "dict_get (Counter os) t 0 = int (count_list os t)" by (simp add: Counter_props(4))
  have fresh: "t \<notin> fst ` set pre" using Cons.prems(4) by auto
  have upd: "AList.update t ?v (pre @ (t, NaN) # map (\<lambda>t. (t, NaN)) rest)
             = (pre @ [(t, ?v)]) @ map (\<lambda>t. (t, NaN)) rest"
    by (simp add: update_append_fresh [OF fresh])
  have val: "Fin (rat_of_int (int (count_list cs t)) / rat_of_int at_risk) = ?v"
    by (simp only: ar of_int_of_nat_eq)
  have "at_risk \<noteq> 0" using npos ar by (metis of_nat_eq_0_iff)
  then have arnz: "(at_risk = 0) = False" by blast
  let ?ar' = "at_risk - (int (count_list cs t) + int (count_list os t))"
  have ar': "?ar' = int (length (filter (\<lambda>u. t < u) ?obs))"
    using filter_ge_split [of t ?obs] by (simp add: ar count_list_append')
  have s: "sorted_wrt (<) rest" and lt: "\<forall>x\<in>set rest. t < x" using Cons.prems(1) by simp_all
  have sub: "set rest \<subseteq> set ?obs" using Cons.prems(2) by simp
  have cov: "\<forall>u\<in>set ?obs. u \<in> set rest \<or> (\<forall>t\<in>set rest. u < t)"
  proof
    fix u assume "u \<in> set ?obs"
    with Cons.prems(3) have "u \<in> set (t # rest) \<or> (\<forall>x\<in>set (t # rest). u < x)" by blast
    then show "u \<in> set rest \<or> (\<forall>t\<in>set rest. u < t)" using lt by auto
  qed
  have d: "distinct (map fst (pre @ [(t, ?v)]) @ rest)" using Cons.prems(4) by simp
  have hd: "rest \<noteq> [] \<longrightarrow> ?ar' = int (length (filter (\<lambda>u. hd rest \<le> u) ?obs))"
  proof
    assume ne: "rest \<noteq> []"
    then obtain t' rest' where r: "rest = t' # rest'" by (cases rest) auto
    have tt': "t < t'" using lt r by simp
    have min: "\<forall>x\<in>set rest. t' \<le> x" using s r by auto
    have "filter (\<lambda>u. t < u) ?obs = filter (\<lambda>u. t' \<le> u) ?obs"
    proof (rule filter_cong [OF refl])
      fix u assume u: "u \<in> set ?obs"
      show "(t < u) = (t' \<le> u)"
      proof
        assume "t < u"
        with Cons.prems(3) u have "u \<in> set rest" by force
        with min show "t' \<le> u" by simp
      next
        assume "t' \<le> u"
        with tt' show "t < u" by simp
      qed
    qed
    then show "?ar' = int (length (filter (\<lambda>u. hd rest \<le> u) ?obs))"
      using ar' r by simp
  qed
  have IH: "hazard_loop rest (Counter cs) (Counter os) ?ar' ((pre @ [(t, ?v)]) @ map (\<lambda>t. (t, NaN)) rest)
      = Inr ((pre @ [(t, ?v)]) @ map (\<lambda>t. (t, Fin (of_nat (count_list cs t)
                                          / of_nat (length (filter (\<lambda>u. t \<le> u) ?obs))))) rest)"
    by (rule Cons.IH [OF s sub cov d hd])
  have step: "hazard_loop (t # rest) (Counter cs) (Counter os) at_risk (pre @ map (\<lambda>t. (t, NaN)) (t # rest))
      = hazard_loop rest (Counter cs) (Counter os) ?ar' ((pre @ [(t, ?v)]) @ map (\<lambda>t. (t, NaN)) rest)"
    by (simp only: list.map hazard_loop.simps Let_def ended censored arnz if_False val upd)
  show ?case unfolding step IH by simp
qed


lemma EstimateHazardFunction_eq:
  "EstimateHazardFunction cs os label =
     Inr \<lparr>hf_series = map (\<lambda>t. (t, Fin (of_nat (count_list cs t)
                                         / of_nat (length (filter (\<lambda>u. t \<le> u) (cs @ os))))))
                          (sorted_list_of_set (set cs \<union> set os)),
          hf_label = label\<rparr>"
proof -
  let ?ts = "sorted_list_of_set (set cs \<union> set os)"
  have a1: "sorted_wrt (<) ?ts" by (simp add: strict_sorted_iff)
  have a2: "set ?ts \<subseteq> set (cs @ os)" by simp
  have a3: "\<forall>u\<in>set (cs @ os). u \<in> set ?ts \<or> (\<forall>t\<in>set ?ts. u < t)" by simp
  have a4: "distinct (map fst ([] :: (rat \<times> pyfloat) list) @ ?ts)" by simp
  have a5: "?ts \<noteq> [] \<longrightarrow>
      int (length cs) + int (length os) = int (length (filter (\<lambda>u. hd ?ts \<le> u) (cs @ os)))"
  proof
    assume "?ts \<noteq> []"
    then obtain a rest where ar: "?ts = a # rest" by (cases ?ts) auto
    have "sorted ?ts" by simp
    then have "\<forall>x\<in>set ?ts. a \<le> x" unfolding ar by auto
    then have "\<forall>u\<in>set (cs @ os). a \<le> u" by simp
    then have "filter (\<lambda>u. a \<le> u) (cs @ os) = cs @ os" by (simp only: filter_id_conv)
    then show "int (length cs) + int (length os) = int (length (filter (\<lambda>u. hd ?ts \<le> u) (cs @ os)))"
      by (simp only: ar list.sel) simp
  qed
  have loop: "hazard_loop ?ts (Counter cs) (Counter os) (int (length cs) + int (length os))
                (map (\<lambda>t. (t, NaN)) ?ts)
        = Inr (map (\<lambda>t. (t, Fin (of_nat (count_list cs t)
                                         / of_nat (length (filter (\<lambda>u. t \<le> u) (cs @ os)))))) ?ts)"
    using hazard_loop_eq [OF a1 a2 a3 a4 a5] by simp
  have nan: "list_ex np_isnan xs = False" for xs
    by (simp add: list_ex_iff np_isnan_def)
  show ?thesis
    by (simp only: EstimateHazardFunction_def Let_def hazard_times loop sum.case nan if_False)
qed

text \<open>
  C2. \<^verbatim>\<open>EstimateHazardFunction(complete, ongoing)\<close> never fails, and its series runs over the
  distinct observed times, complete and ongoing, in ascending order. At each time \<open>t\<close> the
  hazard is the number of complete lifetimes equal to \<open>t\<close> divided by the number at risk at
  \<open>t\<close>, which is the number of observations, complete or ongoing, of at least \<open>t\<close>: all
  \<open>len(complete) + len(ongoing)\<close> of them less those that ended or were censored at an earlier
  time. For \<open>complete = [1, 2, 2, 3]\<close> and no ongoing lifetime the hazards are 1/4, 2/3, 1,
  \<^verbatim>\<open>MakeSurvival\<close> gives \<open>S = [3/4, 1/4, 0]\<close> at the times 1, 2, 3, and \<^verbatim>\<open>Prob\<close> gives
  \<open>S(0) = 1\<close>, \<open>S(1) = 3/4\<close>, \<open>S(2) = 1/4\<close>, \<open>S(3) = 0\<close>.
\<close>

theorem C2_EstimateHazardFunction:
  "EstimateHazardFunction cs os label =
     Inr \<lparr>hf_series = map (\<lambda>t. (t, Fin (of_nat (count_list cs t)
                                         / of_nat (length (filter (\<lambda>u. t \<le> u) (cs @ os))))))
                          (sorted_list_of_set (set cs \<union> set os)),
          hf_label = label\<rparr>
   \<and> length (filter (\<lambda>u. t \<le> u) (cs @ os)) + length (filter (\<lambda>u. u < t) (cs @ os))
       = length cs + length os
   \<and> EstimateHazardFunction [1, 2, 2, 3] [] []
       = Inr \<lparr>hf_series = [(1, Fin (1 / 4)), (2, Fin (2 / 3)), (3, Fin 1)], hf_label = []\<rparr>
   \<and> MakeSurvival \<lparr>hf_series = [(1, Fin (1 / 4)), (2, Fin (2 / 3)), (3, Fin 1)], hf_label = []\<rparr> []
       = \<lparr>sf_ts = [1, 2, 3], sf_ss = [Fin (3 / 4), Fin (1 / 4), Fin 0], sf_label = []\<rparr>
   \<and> SurvivalFunction_Prob
         \<lparr>sf_ts = [1, 2, 3], sf_ss = [Fin (3 / 4), Fin (1 / 4), Fin 0], sf_label = []\<rparr> 0 = Inr (Fin 1)
   \<and> SurvivalFunction_Prob
         \<lparr>sf_ts = [1, 2, 3], sf_ss = [Fin (3 / 4), Fin (1 / 4), Fin 0], sf_label = []\<rparr> 1
       = Inr (Fin (3 / 4))
   \<and> SurvivalFunction_Prob
         \<lparr>sf_ts = [1, 2, 3], sf_ss = [Fin (3 / 4), Fin (1 / 4), Fin 0], sf_label = []\<rparr> 2
       = Inr (Fin (1 / 4))
   \<and> SurvivalFunction_Prob
         \<lparr>sf_ts = [1, 2, 3], sf_ss = [Fin (3 / 4), Fin (1 / 4), Fin 0], sf_label = []\<rparr> 3 = Inr (Fin 0)"
proof -
  have part: "length (filter (\<lambda>u. t \<le> u) (cs @ os)) + length (filter (\<lambda>u. u < t) (cs @ os))
       = length cs + length os"
    using sum_length_filter_compl [of "\<lambda>u. t \<le> u" "cs @ os"] by (simp add: not_le)
  have ex: "EstimateHazardFunction [1, 2, 2, 3] [] []
       = Inr \<lparr>hf_series = [(1, Fin (1 / 4)), (2, Fin (2 / 3)), (3, Fin 1)], hf_label = []\<rparr>"
    by (simp add: EstimateHazardFunction_def np_isnan_def Counter_def Counter_or_def dict_get_def Let_def)
  have ms: "MakeSurvival \<lparr>hf_series = [(1, Fin (1 / 4)), (2, Fin (2 / 3)), (3, Fin 1)], hf_label = []\<rparr> []
       = \<lparr>sf_ts = [1, 2, 3], sf_ss = [Fin (3 / 4), Fin (1 / 4), Fin 0], sf_label = []\<rparr>"
    by (simp add: MakeSurvival_def fl_sub_def)
  have p: "SurvivalFunction_Prob
         \<lparr>sf_ts = [1, 2, 3], sf_ss = [Fin (3 / 4), Fin (1 / 4), Fin 0], sf_label = []\<rparr> 0 = Inr (Fin 1)"
    "SurvivalFunction_Prob
         \<lparr>sf_ts = [1, 2, 3], sf_ss = [Fin (3 / 4), Fin (1 / 4), Fin 0], sf_label = []\<rparr> 1
       = Inr (Fin (3 / 4))"
    "SurvivalFunction_Prob
         \<lparr>sf_ts = [1, 2, 3], sf_ss = [Fin (3 / 4), Fin (1 / 4), Fin 0], sf_label = []\<rparr> 2
       = Inr (Fin (1 / 4))"
    "SurvivalFunction_Prob
         \<lparr>sf_ts = [1, 2, 3], sf_ss = [Fin (3 / 4), Fin (1 / 4), Fin 0], sf_label = []\<rparr> 3 = Inr (Fin 0)"
    by (simp_all add: SurvivalFunction_Prob_def np_interp_def)
  from EstimateHazardFunction_eq [of cs os label] part ex ms p show ?thesis by (intro conjI)
qed

end
